theory Spec2Isabelle
  imports Main
begin

text \<open>
  A model of \<^verbatim>\<open>load_snapshots.py\<close>, which copies three tables of a PostgreSQL read replica
  into the schema \<^verbatim>\<open>snapshots\<close> of a Redshift warehouse: each table is read through a
  named cursor, written as one JSON record per row to a temporary file, uploaded to S3 under
  a path partitioned by date, and loaded with \<^verbatim>\<open>COPY\<close>. The database, the object store, the
  file system and the clock are outside the program; their state is a record that the
  functions pass along, and what they answer is given by an environment.
\<close>

section \<open>Python values, errors and calendar dates\<close>

text \<open>
  The exceptions the program can raise. \<open>DatabaseError\<close> stands for any error of the
  database driver (source or warehouse side), \<open>S3UploadFailedError\<close> for a failed upload;
  both carry the message they were raised with.
\<close>

datatype error =
    IndexError
  | OverflowError
  | DatabaseError string
  | S3UploadFailedError string

text \<open>
  A \<^verbatim>\<open>float\<close>, as far as its encoding goes: a finite one is given by the text that
  \<^verbatim>\<open>float.__repr__\<close> writes for it (how that text follows from the binary value is not
  modelled), the others are the three values that are not numbers of JSON.
\<close>

datatype pyfloat = Finite string | NaN | Infinity | NegInfinity

text \<open>
  A column value of a fetched row: the values that \<^verbatim>\<open>json.dumps\<close> writes natively
  (\<^verbatim>\<open>None\<close>, booleans, integers, floats, text, lists and tuples, dictionaries with text
  keys), and \<open>PObj\<close> for every other object (a \<^verbatim>\<open>datetime\<close>, a \<^verbatim>\<open>Decimal\<close>), which
  \<^verbatim>\<open>json.dumps\<close> hands to its \<^verbatim>\<open>default\<close> hook. Text is a list of characters with
  codes 0 to 255.
\<close>

datatype 'o pyval =
    PNone
  | PBool bool
  | PInt int
  | PFloat pyfloat
  | PStr string
  | PList "'o pyval list"
  | PDict "(string \<times> 'o pyval) list"
  | PObj 'o

text \<open>A \<^verbatim>\<open>datetime\<close> as \<^verbatim>\<open>datetime.today()\<close> returns it, and the \<^verbatim>\<open>date\<close> part of it.\<close>

record datetime =
  year :: nat
  month :: nat
  day :: nat
  hour :: nat
  minute :: nat
  second :: nat
  microsecond :: nat

type_synonym date = "nat \<times> nat \<times> nat"

definition date_of :: "datetime \<Rightarrow> date" where
  "date_of d = (year d, month d, day d)"

definition is_leap :: "nat \<Rightarrow> bool" where
  "is_leap y \<longleftrightarrow> y mod 4 = 0 \<and> (y mod 100 \<noteq> 0 \<or> y mod 400 = 0)"

definition days_in_month :: "nat \<Rightarrow> nat \<Rightarrow> nat" where
  "days_in_month y m =
     (if m = 2 then (if is_leap y then 29 else 28)
      else if m = 4 \<or> m = 6 \<or> m = 9 \<or> m = 11 then 30 else 31)"

text \<open>The values a \<^verbatim>\<open>datetime\<close> object can hold (years 1 to 9999).\<close>

definition valid_datetime :: "datetime \<Rightarrow> bool" where
  "valid_datetime d \<longleftrightarrow>
     1 \<le> year d \<and> year d \<le> 9999 \<and> 1 \<le> month d \<and> month d \<le> 12 \<and>
     1 \<le> day d \<and> day d \<le> days_in_month (year d) (month d)"

text \<open>
  \<^verbatim>\<open>d - timedelta(days=1)\<close>: the same time on the previous calendar day; Python raises
  \<^verbatim>\<open>OverflowError\<close> when the result would fall before year 1.
\<close>

definition minus_one_day :: "datetime \<Rightarrow> error + datetime" where
  "minus_one_day d =
     (if 1 < day d then Inr (d\<lparr>day := day d - 1\<rparr>)
      else if 1 < month d
        then Inr (d\<lparr>month := month d - 1, day := days_in_month (year d) (month d - 1)\<rparr>)
      else if 1 < year d then Inr (d\<lparr>year := year d - 1, month := 12, day := 31\<rparr>)
      else Inl OverflowError)"

section \<open>String formatting\<close>

definition digit_char :: "nat \<Rightarrow> char" where
  "digit_char n = ''0123456789abcdef'' ! n"

fun show_nat :: "nat \<Rightarrow> string" where
  "show_nat n = (if n < 10 then [digit_char n] else show_nat (n div 10) @ [digit_char (n mod 10)])"

declare show_nat.simps [simp del]

definition show_int :: "int \<Rightarrow> string" where
  "show_int i = (if i < 0 then CHR ''-'' # show_nat (nat (- i)) else show_nat (nat i))"

definition zfill :: "nat \<Rightarrow> string \<Rightarrow> string" where
  "zfill w s = replicate (w - length s) CHR ''0'' @ s"

text \<open>
  \<^verbatim>\<open>strftime\<close> with the directives the program uses, as CPython on Linux (the C library's
  \<^verbatim>\<open>strftime\<close>) writes them: \<^verbatim>\<open>%Y\<close> is the year without padding (\<^verbatim>\<open>999\<close> for the year
  999), \<^verbatim>\<open>%m\<close> and \<^verbatim>\<open>%d\<close> are month and day in two digits.
\<close>

definition strftime_Y :: "datetime \<Rightarrow> string" where
  "strftime_Y d = show_nat (year d)"

definition strftime_m :: "datetime \<Rightarrow> string" where
  "strftime_m d = zfill 2 (show_nat (month d))"

definition strftime_d :: "datetime \<Rightarrow> string" where
  "strftime_d d = zfill 2 (show_nat (day d))"

definition strftime_Ymd :: "datetime \<Rightarrow> string" where
  "strftime_Ymd d = strftime_Y d @ ''-'' @ strftime_m d @ ''-'' @ strftime_d d"

section \<open>JSON encoding\<close>

text \<open>
  \<^verbatim>\<open>json.dumps\<close> with its defaults (\<^verbatim>\<open>ensure_ascii=True\<close>, separators \<^verbatim>\<open>", "\<close> and
  \<^verbatim>\<open>": "\<close>). A character outside the printable ASCII range, a double quote and a backslash
  are escaped.
\<close>

definition dquote :: char where "dquote = CHR 0x22"
definition backslash :: char where "backslash = CHR 0x5C"
definition newline :: char where "newline = CHR 0x0A"

definition hex4 :: "nat \<Rightarrow> string" where
  "hex4 n = [digit_char (n div 4096 mod 16), digit_char (n div 256 mod 16),
             digit_char (n div 16 mod 16), digit_char (n mod 16)]"

definition escape_char :: "char \<Rightarrow> string" where
  "escape_char c =
     (if c = backslash then [backslash, backslash]
      else if c = dquote then [backslash, dquote]
      else if c = CHR 0x08 then [backslash, CHR ''b'']
      else if c = CHR 0x0C then [backslash, CHR ''f'']
      else if c = newline then [backslash, CHR ''n'']
      else if c = CHR 0x0D then [backslash, CHR ''r'']
      else if c = CHR 0x09 then [backslash, CHR ''t'']
      else if (32::nat) \<le> of_char c \<and> (of_char c :: nat) \<le> 126 then [c]
      else backslash # CHR ''u'' # hex4 (of_char c))"

definition json_str :: "string \<Rightarrow> string" where
  "json_str s = dquote # concat (map escape_char s) @ [dquote]"

text \<open>
  Modelled from the spec: the \<^verbatim>\<open>default\<close> hook, \<^verbatim>\<open>date_string_or_none\<close>, is imported from
  the module \<^verbatim>\<open>helpers\<close>, whose source is not in \<^verbatim>\<open>load_snapshots.py\<close>. By the
  specification, values of date or time type are written as date strings and absent values
  as the JSON null. The hook is therefore a parameter: given an object, it returns a date
  string or \<^verbatim>\<open>None\<close>, and the encoder writes what it returns.
\<close>

fun join :: "string \<Rightarrow> string list \<Rightarrow> string" where
  "join sep [] = []"
| "join sep [x] = x"
| "join sep (x # y # ys) = x @ sep @ join sep (y # ys)"

text \<open>The encoder writes the floats that are not numbers by name (\<^verbatim>\<open>allow_nan=True\<close>).\<close>

fun float_repr :: "pyfloat \<Rightarrow> string" where
  "float_repr (Finite s) = s"
| "float_repr NaN = ''NaN''"
| "float_repr Infinity = ''Infinity''"
| "float_repr NegInfinity = ''-Infinity''"

fun json_val :: "('o \<Rightarrow> string option) \<Rightarrow> 'o pyval \<Rightarrow> string" where
  "json_val dflt PNone = ''null''"
| "json_val dflt (PBool b) = (if b then ''true'' else ''false'')"
| "json_val dflt (PInt i) = show_int i"
| "json_val dflt (PFloat x) = float_repr x"
| "json_val dflt (PStr s) = json_str s"
| "json_val dflt (PList vs) = ''['' @ join '', '' (map (json_val dflt) vs) @ '']''"
| "json_val dflt (PDict kvs) =
     ''{'' @ join '', '' (map (\<lambda>kv. json_str (fst kv) @ '': '' @ json_val dflt (snd kv)) kvs)
       @ ''}''"
| "json_val dflt (PObj x) = (case dflt x of None \<Rightarrow> ''null'' | Some s \<Rightarrow> json_str s)"

text \<open>
  The values whose encoding is JSON: those that neither are nor contain a float that is
  not a number. The text of a finite float is made of digits, signs, a point and the
  letter of the exponent.
\<close>

definition float_text :: "string \<Rightarrow> bool" where
  "float_text s \<longleftrightarrow> s \<noteq> [] \<and> list_all (\<lambda>c. c \<in> set ''0123456789+-.e'') s"

fun finite_float :: "pyfloat \<Rightarrow> bool" where
  "finite_float (Finite s) = float_text s"
| "finite_float x = False"

fun finite_value :: "'o pyval \<Rightarrow> bool" where
  "finite_value (PFloat x) = finite_float x"
| "finite_value (PList vs) = list_all finite_value vs"
| "finite_value (PDict kvs) = list_all (\<lambda>kv. finite_value (snd kv)) kvs"
| "finite_value v = True"

definition json_item :: "('o \<Rightarrow> string option) \<Rightarrow> string \<times> 'o pyval \<Rightarrow> string" where
  "json_item dflt kv = json_str (fst kv) @ '': '' @ json_val dflt (snd kv)"

definition json_dumps :: "('o \<Rightarrow> string option) \<Rightarrow> (string \<times> 'o pyval) list \<Rightarrow> string" where
  "json_dumps dflt data = ''{'' @ join '', '' (map (json_item dflt) data) @ ''}''"

section \<open>The row serializer\<close>

text \<open>
  A Python \<^verbatim>\<open>dict\<close> keeps its keys in insertion order; assigning to a key that is present
  replaces the value and leaves the key where it is.
\<close>

fun dict_setitem :: "string \<Rightarrow> 'v \<Rightarrow> (string \<times> 'v) list \<Rightarrow> (string \<times> 'v) list" where
  "dict_setitem k v [] = [(k, v)]"
| "dict_setitem k v (p # ps) = (if fst p = k then (k, v) # ps else p # dict_setitem k v ps)"

text \<open>
  \<^verbatim>\<open>for idx, col in enumerate(curs.description): data[col.name] = row[idx]\<close>;
  \<^verbatim>\<open>row[idx]\<close> raises \<^verbatim>\<open>IndexError\<close> past the end of the row.
\<close>

fun set_columns ::
  "nat \<Rightarrow> string list \<Rightarrow> 'o pyval list \<Rightarrow> (string \<times> 'o pyval) list
     \<Rightarrow> error + (string \<times> 'o pyval) list" where
  "set_columns idx [] row data = Inr data"
| "set_columns idx (col # cols) row data =
     (if idx < length row
      then set_columns (Suc idx) cols row (dict_setitem col (row ! idx) data)
      else Inl IndexError)"

text \<open>The record of one row; \<open>today\<close> is what \<^verbatim>\<open>datetime.today()\<close> returned for this row.\<close>

definition row_record ::
  "datetime \<Rightarrow> string list \<Rightarrow> 'o pyval list \<Rightarrow> error + (string \<times> 'o pyval) list" where
  "row_record today description row =
     (case minus_one_day today of
        Inl e \<Rightarrow> Inl e
      | Inr y \<Rightarrow> set_columns 0 description row [(''snapshot_date'', PStr (strftime_Ymd y))])"

definition row_line ::
  "('o \<Rightarrow> string option) \<Rightarrow> datetime \<Rightarrow> string list \<Rightarrow> 'o pyval list \<Rightarrow> error + string" where
  "row_line dflt today description row =
     (case row_record today description row of
        Inl e \<Rightarrow> Inl e
      | Inr data \<Rightarrow> Inr (json_dumps dflt data @ [newline]))"

text \<open>
  What \<^verbatim>\<open>YYYY-MM-DD\<close> means: ten characters, decimal digits but for a hyphen after the
  year and one after the month.
\<close>

definition is_digit :: "char \<Rightarrow> bool" where
  "is_digit c \<longleftrightarrow> c \<in> set ''0123456789''"

definition is_ymd :: "string \<Rightarrow> bool" where
  "is_ymd s \<longleftrightarrow>
     length s = 10 \<and> list_all is_digit (take 4 s) \<and> s ! 4 = CHR ''-'' \<and>
     list_all is_digit (take 2 (drop 5 s)) \<and> s ! 7 = CHR ''-'' \<and>
     list_all is_digit (drop 8 s)"

section \<open>Partition paths\<close>

text \<open>
  The paths that \<^verbatim>\<open>main\<close> formats from \<^verbatim>\<open>day\<close>: \<^verbatim>\<open>"{}".format(day.year)\<close> writes the
  year without padding, \<^verbatim>\<open>strftime\<close> writes month and day.
\<close>

definition date_params :: "datetime \<Rightarrow> string" where
  "date_params d =
     ''snapshot_year='' @ show_nat (year d) @ ''/snapshot_month='' @ strftime_m d
       @ ''/snapshot_day='' @ strftime_d d"

definition users_dump_to :: "datetime \<Rightarrow> string" where
  "users_dump_to d = ''users/'' @ date_params d @ ''/data''"

definition projects_dump_to :: "datetime \<Rightarrow> string" where
  "projects_dump_to d = ''projects/'' @ date_params d @ ''/data''"

definition activities_dump_to :: "datetime \<Rightarrow> string" where
  "activities_dump_to d = ''activities/'' @ date_params d @ ''/incremental''"

text \<open>
  What "zero-padded to two digits" means, said without the program's own formatting
  functions: the character of a decimal digit, and the two digits of a number below 100.
\<close>

definition decimal_digit :: "nat \<Rightarrow> char" where
  "decimal_digit k =
     (if k = 0 then CHR ''0'' else if k = 1 then CHR ''1'' else if k = 2 then CHR ''2''
      else if k = 3 then CHR ''3'' else if k = 4 then CHR ''4'' else if k = 5 then CHR ''5''
      else if k = 6 then CHR ''6'' else if k = 7 then CHR ''7'' else if k = 8 then CHR ''8''
      else CHR ''9'')"

definition two_digits :: "nat \<Rightarrow> string" where
  "two_digits n = [decimal_digit (n div 10), decimal_digit (n mod 10)]"

section \<open>The world the program acts on\<close>

text \<open>
  The calls the program makes on its collaborators: the local file system, the source
  database (\<open>Src\<close>), object storage and the warehouse (\<open>Wh\<close>). \<open>WhCopy\<close> carries the
  target table of schema \<^verbatim>\<open>snapshots\<close>, the URI of the blob and the access role.
  A call is listed in the trace whether it returns or raises.
\<close>

datatype event =
    TempCreate nat
  | TempRemove nat
  | SrcBegin
  | SrcExecute string "date list option"
  | SrcCommit
  | SrcRollback
  | Upload string
  | WhCopy string string string
  | WhCommit

text \<open>
  The state outside the program: how often the clock has been read, the temporary files
  (by name) with their contents, the objects of the destination bucket (by key), whether the
  source connection has a transaction open, the bulk loads executed but not committed on the
  warehouse connection, the committed ones, and the trace of calls. The connections are
  not in autocommit mode: a load is visible in the warehouse once it is committed, and the
  loads still pending when the program ends are discarded with the connection.
\<close>

record world =
  ticks :: nat
  next_tmp :: nat
  tmpfs :: "nat \<rightharpoonup> string"
  s3 :: "string \<rightharpoonup> string"
  src_in_tx :: bool
  wh_pending :: "(string \<times> string) list"
  wh_visible :: "(string \<times> string) list"
  trace :: "event list"

text \<open>
  What executing a query on the named cursor brings: \<^verbatim>\<open>execute\<close> raises, or the cursor
  reports its column names and yields rows, and then ends or raises (a dropped connection).
\<close>

datatype 'o cursor_result =
    ExecuteRaises error
  | Rows "string list" "'o pyval list list" "error option"

text \<open>
  What the environment decides in one run: the successive readings of the clock, the
  configuration (\<^verbatim>\<open>DW_BUCKET\<close>, \<^verbatim>\<open>REDSHIFT_ROLE\<close>), the \<^verbatim>\<open>default\<close> hook of the JSON
  encoder, and the outcome of every call that can raise (\<open>None\<close>: the call returns).
\<close>

record 'o env =
  clock :: "nat \<Rightarrow> datetime"
  bucket :: string
  redshift_role :: string
  date_string_or_none :: "'o \<Rightarrow> string option"
  replica_connect :: "error option"
  redshift_connect :: "error option"
  replica_execute :: "string \<Rightarrow> date list option \<Rightarrow> 'o cursor_result"
  upload_file :: "string \<Rightarrow> error option"
  redshift_execute :: "string \<Rightarrow> error option"
  replica_commit :: "error option"
  redshift_commit :: "error option"

section \<open>dump\<close>

text \<open>
  The loop \<^verbatim>\<open>for row in curs\<close>: every row reads the clock anew, is serialized and appended
  to the temporary file. The result is the error raised, if any, the clock reads used and
  the contents of the file.
\<close>

fun write_rows ::
  "'o env \<Rightarrow> string list \<Rightarrow> 'o pyval list list \<Rightarrow> nat \<Rightarrow> string
     \<Rightarrow> error option \<times> nat \<times> string" where
  "write_rows env description [] t buf = (None, t, buf)"
| "write_rows env description (row # rows) t buf =
     (case row_line (date_string_or_none env) (clock env t) description row of
        Inl e \<Rightarrow> (Some e, Suc t, buf)
      | Inr line \<Rightarrow> write_rows env description rows (Suc t) (buf @ line))"

text \<open>
  The first block of \<^verbatim>\<open>dump\<close>: create the temporary file, execute the query (the driver
  begins a transaction when none is open), write the rows, upload the file, remove it.
\<close>

definition write_to_s3 ::
  "'o env \<Rightarrow> string \<Rightarrow> string \<Rightarrow> date list option \<Rightarrow> world \<Rightarrow> (error + unit) \<times> world" where
  "write_to_s3 env to_file query params w =
     (let temp = next_tmp w;
          w1 = w\<lparr>next_tmp := Suc temp, tmpfs := (tmpfs w)(temp \<mapsto> []),
                 trace := trace w @ [TempCreate temp]\<rparr>;
          w2 = w1\<lparr>src_in_tx := True,
                  trace := trace w1 @ (if src_in_tx w1 then [] else [SrcBegin])
                             @ [SrcExecute query params]\<rparr>
      in case replica_execute env query params of
           ExecuteRaises e \<Rightarrow> (Inl e, w2)
         | Rows description rows err \<Rightarrow>
             (case write_rows env description rows (ticks w2) [] of
                (Some e, t, buf) \<Rightarrow> (Inl e, w2\<lparr>ticks := t, tmpfs := (tmpfs w2)(temp \<mapsto> buf)\<rparr>)
              | (None, t, buf) \<Rightarrow>
                  (let w3 = w2\<lparr>ticks := t, tmpfs := (tmpfs w2)(temp \<mapsto> buf)\<rparr> in
                   case err of
                     Some e \<Rightarrow> (Inl e, w3)
                   | None \<Rightarrow>
                       (let w4 = w3\<lparr>trace := trace w3 @ [Upload to_file]\<rparr> in
                        case upload_file env to_file of
                          Some e \<Rightarrow> (Inl e, w4)
                        | None \<Rightarrow>
                            (Inr (), w4\<lparr>s3 := (s3 w4)(to_file \<mapsto> buf),
                                         tmpfs := (tmpfs w4)(temp := None),
                                         trace := trace w4 @ [TempRemove temp]\<rparr>)))))"

text \<open>The second block: the \<^verbatim>\<open>COPY\<close> statement, executed and not committed.\<close>

definition copy_into_redshift ::
  "'o env \<Rightarrow> string \<Rightarrow> string \<Rightarrow> world \<Rightarrow> (error + unit) \<times> world" where
  "copy_into_redshift env to_file copy_to w =
     (let uri = ''s3://'' @ bucket env @ ''/'' @ to_file;
          w1 = w\<lparr>trace := trace w @ [WhCopy copy_to uri (redshift_role env)]\<rparr>
      in case redshift_execute env copy_to of
           Some e \<Rightarrow> (Inl e, w1)
         | None \<Rightarrow> (Inr (), w1\<lparr>wh_pending := wh_pending w1 @ [(copy_to, uri)]\<rparr>))"

definition dump ::
  "'o env \<Rightarrow> string \<Rightarrow> string \<Rightarrow> string \<Rightarrow> date list option \<Rightarrow> world
     \<Rightarrow> (error + unit) \<times> world" where
  "dump env to_file copy_to query params w =
     (case write_to_s3 env to_file query params w of
        (Inl e, w1) \<Rightarrow> (Inl e, w1)
      | (Inr u, w1) \<Rightarrow> copy_into_redshift env to_file copy_to w1)"

section \<open>main\<close>

definition users_query :: string where
  "users_query = join [newline]
     ['''', ''            SELECT'', ''                id,'', ''                created_at,'',
      ''                updated_at,'', ''                deleted_at,'', ''                name'',
      ''            FROM users'', ''            '']"

definition projects_query :: string where
  "projects_query = join [newline]
     ['''', ''            SELECT'', ''                id,'', ''                repository_id,'',
      ''                created_at,'', ''                updated_at,'',
      ''                deleted_at,'', ''                name'', ''            FROM projects'']"

definition activities_query :: string where
  "activities_query = join [newline]
     ['''', ''            SELECT'', ''                id,'', ''                event,'',
      ''                created_at,'', ''                updated_at,'',
      ''                project_id,'', ''                user_id'',
      ''            FROM activities'', ''            WHERE DATE(created_at) = %s'']"

text \<open>
  The body of \<^verbatim>\<open>with read_replica:\<close>: \<^verbatim>\<open>day\<close> is computed from one reading of the clock,
  then the three dumps run in turn; an exception ends the block at once.
\<close>

definition run_dumps :: "'o env \<Rightarrow> world \<Rightarrow> (error + unit) \<times> world" where
  "run_dumps env w =
     (let w0 = w\<lparr>ticks := Suc (ticks w)\<rparr> in
      case minus_one_day (clock env (ticks w)) of
        Inl e \<Rightarrow> (Inl e, w0)
      | Inr d \<Rightarrow>
          (case dump env (users_dump_to d) ''users'' users_query None w0 of
             (Inl e, w1) \<Rightarrow> (Inl e, w1)
           | (Inr u, w1) \<Rightarrow>
               (case dump env (projects_dump_to d) ''projects'' projects_query None w1 of
                  (Inl e, w2) \<Rightarrow> (Inl e, w2)
                | (Inr u, w2) \<Rightarrow>
                    dump env (activities_dump_to d) ''activities'' activities_query
                      (Some [date_of d]) w2)))"

text \<open>Leaving \<^verbatim>\<open>with read_replica:\<close> by an exception rolls the source transaction back.\<close>

definition abort_run :: "world \<Rightarrow> world" where
  "abort_run w = w\<lparr>src_in_tx := False, trace := trace w @ [SrcRollback]\<rparr>"

text \<open>
  \<^verbatim>\<open>main\<close>: both connections are new (no transaction open, nothing pending); the block of
  dumps; the commit of the source transaction on leaving the block; the warehouse commit,
  which makes the pending loads visible. The calls to \<^verbatim>\<open>initialize_sentry\<close>,
  \<^verbatim>\<open>logging\<close> and \<^verbatim>\<open>dd_events\<close> are left out.
\<close>

definition main :: "'o env \<Rightarrow> world \<Rightarrow> (error + unit) \<times> world" where
  "main env w =
     (case replica_connect env of
        Some e \<Rightarrow> (Inl e, w)
      | None \<Rightarrow>
     (case redshift_connect env of
        Some e \<Rightarrow> (Inl e, w)
      | None \<Rightarrow>
     (case run_dumps env (w\<lparr>src_in_tx := False, wh_pending := []\<rparr>) of
        (Inl e, w1) \<Rightarrow> (Inl e, abort_run w1)
      | (Inr u, w1) \<Rightarrow>
          (let w2 = w1\<lparr>src_in_tx := False, trace := trace w1 @ [SrcCommit]\<rparr> in
           case replica_commit env of
             Some e \<Rightarrow> (Inl e, w2)
           | None \<Rightarrow>
               (let w3 = w2\<lparr>trace := trace w2 @ [WhCommit]\<rparr> in
                case redshift_commit env of
                  Some e \<Rightarrow> (Inl e, w3)
                | None \<Rightarrow>
                    (Inr (), w3\<lparr>wh_visible := wh_visible w3 @ wh_pending w3,
                                 wh_pending := []\<rparr>))))))"

section \<open>Reading the trace\<close>

text \<open>The calls made between two states of one run.\<close>

definition new_events :: "world \<Rightarrow> world \<Rightarrow> event list" where
  "new_events w w' = drop (length (trace w)) (trace w')"

text \<open>The calls on the source connection, and those on the warehouse connection.\<close>

fun is_src :: "event \<Rightarrow> bool" where
  "is_src SrcBegin = True"
| "is_src (SrcExecute q p) = True"
| "is_src SrcCommit = True"
| "is_src SrcRollback = True"
| "is_src e = False"

fun is_wh :: "event \<Rightarrow> bool" where
  "is_wh (WhCopy t u r) = True"
| "is_wh WhCommit = True"
| "is_wh e = False"

fun is_upload :: "event \<Rightarrow> bool" where
  "is_upload (Upload k) = True"
| "is_upload e = False"

text \<open>
  What the statements on the source connection read. The source database is PostgreSQL;
  other sessions commit while the program runs, and \<open>committed i\<close> is the version of the
  data that is committed when the program makes its \<open>i\<close>-th call. A statement reads a
  snapshot: at isolation level read committed, which a connection has unless it or the
  server is configured otherwise, the version committed when the statement starts; at
  repeatable read and at serializable, the version committed when the first statement of
  its transaction started. \<open>snapshots\<close> follows the calls of a run and lists the versions
  that its queries read; \<open>snap\<close> is the snapshot of the open transaction, if it has one.
\<close>

datatype isolation = ReadCommitted | RepeatableRead | Serializable

fun snapshots :: "isolation \<Rightarrow> (nat \<Rightarrow> nat) \<Rightarrow> nat \<Rightarrow> nat option \<Rightarrow> event list \<Rightarrow> nat list" where
  "snapshots lvl committed i snap [] = []"
| "snapshots lvl committed i snap (SrcExecute q p # evs) =
     (let v = (case snap of
                 None \<Rightarrow> committed i
               | Some s \<Rightarrow> if lvl = ReadCommitted then committed i else s)
      in v # snapshots lvl committed (Suc i) (Some v) evs)"
| "snapshots lvl committed i snap (SrcBegin # evs) = snapshots lvl committed (Suc i) None evs"
| "snapshots lvl committed i snap (SrcCommit # evs) = snapshots lvl committed (Suc i) None evs"
| "snapshots lvl committed i snap (SrcRollback # evs) = snapshots lvl committed (Suc i) None evs"
| "snapshots lvl committed i snap (e # evs) = snapshots lvl committed (Suc i) snap evs"

text \<open>The address under which \<^verbatim>\<open>dump\<close> hands a blob to the warehouse.\<close>

definition s3_uri :: "'o env \<Rightarrow> string \<Rightarrow> string" where
  "s3_uri env to_file = ''s3://'' @ bucket env @ ''/'' @ to_file"

text \<open>
  The calls of one \<^verbatim>\<open>dump\<close> that raises nowhere, from a state with temporary name
  \<open>temp\<close>; \<open>in_tx\<close> tells whether the source connection has a transaction open already.
\<close>

definition dump_calls ::
  "'o env \<Rightarrow> nat \<Rightarrow> bool \<Rightarrow> string \<Rightarrow> string \<Rightarrow> string \<Rightarrow> date list option \<Rightarrow> event list" where
  "dump_calls env temp in_tx to_file copy_to query params =
     TempCreate temp # (if in_tx then [] else [SrcBegin]) @
     [SrcExecute query params, Upload to_file, TempRemove temp,
      WhCopy copy_to (s3_uri env to_file) (redshift_role env)]"

text \<open>Whether the text \<open>p\<close> occurs somewhere in a text.\<close>

fun occurs_in :: "string \<Rightarrow> string \<Rightarrow> bool" where
  "occurs_in p [] = (p = [])"
| "occurs_in p (c # cs) = (take (length p) (c # cs) = p \<or> occurs_in p cs)"

section \<open>Example runs\<close>

text \<open>A world in which nothing has happened yet.\<close>

definition initial_world :: world where
  "initial_world =
     \<lparr>ticks = 0, next_tmp = 0, tmpfs = Map.empty, s3 = Map.empty, src_in_tx = False,
      wh_pending = [], wh_visible = [], trace = []\<rparr>"

definition noon :: datetime where
  "noon = \<lparr>year = 2023, month = 3, day = 6, hour = 12, minute = 0, second = 0, microsecond = 0\<rparr>"

text \<open>
  A run in which no call raises: the clock stands at noon of 2023-03-06, every query yields
  two rows with the columns \<^verbatim>\<open>id\<close>, \<^verbatim>\<open>created_at\<close> and \<^verbatim>\<open>name\<close>, and the encoder's hook
  writes a \<^verbatim>\<open>datetime\<close> as its date.
\<close>

definition quiet_env :: "datetime env" where
  "quiet_env =
     \<lparr>clock = (\<lambda>n. noon),
      bucket = ''dw-bucket'',
      redshift_role = ''arn:aws:iam::1:role/dw'',
      date_string_or_none = (\<lambda>x. Some (strftime_Ymd x)),
      replica_connect = None,
      redshift_connect = None,
      replica_execute = (\<lambda>q p. Rows [''id'', ''created_at'', ''name'']
         [[PInt 1, PObj (noon\<lparr>day := 1\<rparr>), PStr ''ann''], [PInt 2, PNone, PStr ''bob'']] None),
      upload_file = (\<lambda>k. None),
      redshift_execute = (\<lambda>t. None),
      replica_commit = None,
      redshift_commit = None\<rparr>"

text \<open>
  The same run started two seconds before midnight: the clock passes midnight after its
  second reading.
\<close>

definition midnight_env :: "datetime env" where
  "midnight_env = quiet_env
     \<lparr>clock := (\<lambda>n. if n < 2 then noon\<lparr>hour := 23, minute := 59, second := 58 + n\<rparr>
                    else noon\<lparr>day := 7, hour := 0\<rparr>)\<rparr>"

text \<open>A run in which the source connection drops after the first row of every query.\<close>

definition dropped_env :: "datetime env" where
  "dropped_env = quiet_env
     \<lparr>replica_execute := (\<lambda>q p. Rows [''id'', ''created_at'', ''name'']
         [[PInt 1, PObj (noon\<lparr>day := 1\<rparr>), PStr ''ann'']]
         (Some (DatabaseError ''server closed the connection unexpectedly'')))\<rparr>"

text \<open>A run in which the warehouse refuses the bulk load of table \<^verbatim>\<open>projects\<close>.\<close>

definition load_fails_env :: "datetime env" where
  "load_fails_env = quiet_env
     \<lparr>redshift_execute := (\<lambda>t. if t = ''projects''
         then Some (DatabaseError ''Load into table projects failed'') else None)\<rparr>"

text \<open>A run in which the commit of the source transaction, on leaving the block, raises.\<close>

definition source_commit_fails_env :: "datetime env" where
  "source_commit_fails_env = quiet_env
     \<lparr>replica_commit := Some (DatabaseError ''server closed the connection unexpectedly'')\<rparr>"

text \<open>
  A source on which another session commits once during a run, before the program's sixth
  call: version 0 of the data until then, version 1 afterwards.
\<close>

definition busy_source :: "nat \<Rightarrow> nat" where
  "busy_source i = (if i < 5 then 0 else 1)"

section \<open>Properties of the formatting functions\<close>

lemma digit_char_lt10: "n < 10 \<Longrightarrow> is_digit (digit_char n)"
proof -
  assume "n < 10"
  then have "n = 0 \<or> n = 1 \<or> n = 2 \<or> n = 3 \<or> n = 4 \<or> n = 5 \<or> n = 6 \<or> n = 7 \<or> n = 8 \<or> n = 9" by arith
  then show ?thesis by (elim disjE) (simp_all add: digit_char_def is_digit_def)
qed

lemma digit_char_lt16: "n < 16 \<Longrightarrow> digit_char n \<in> set ''0123456789abcdef''"
  unfolding digit_char_def by (rule nth_mem) simp

lemma show_nat_digits: "list_all is_digit (show_nat n)"
proof (induction n rule: show_nat.induct)
  case (1 n)
  show ?case
  proof (cases "n < 10")
    case True
    then show ?thesis by (subst show_nat.simps) (simp add: digit_char_lt10)
  next
    case False
    with 1 show ?thesis by (subst show_nat.simps) (simp add: digit_char_lt10)
  qed
qed

lemma length_show_nat: "0 < k \<Longrightarrow> n < 10 ^ k \<Longrightarrow> length (show_nat n) \<le> k"
proof (induction n arbitrary: k rule: show_nat.induct)
  case (1 n)
  show ?case
  proof (cases "n < 10")
    case True
    with 1(2) show ?thesis by (subst show_nat.simps) simp
  next
    case False
    from 1(2) obtain j where j: "k = Suc j" by (cases k) auto
    from 1(3) j have "n div 10 < 10 ^ j" by (simp add: less_mult_imp_div_less)
    moreover from this False have "0 < j" by (cases j) auto
    ultimately have "length (show_nat (n div 10)) \<le> j" using 1(1) False by blast
    with False j show ?thesis by (subst show_nat.simps) simp
  qed
qed

lemma length_zfill: "length s \<le> w \<Longrightarrow> length (zfill w s) = w"
  by (simp add: zfill_def)

lemma is_digit_zero: "is_digit CHR ''0''"
  by (simp add: is_digit_def)

lemma zfill_digits: "list_all is_digit s \<Longrightarrow> list_all is_digit (zfill w s)"
  by (auto simp: zfill_def list_all_iff is_digit_zero)

lemma days_in_month_bounds: "28 \<le> days_in_month y m \<and> days_in_month y m \<le> 31"
  by (simp add: days_in_month_def)


lemma minus_one_day_valid:
  assumes "valid_datetime d" and "minus_one_day d = Inr y"
  shows "valid_datetime y"
proof -
  have december: "\<And>y. days_in_month y 12 = 31"
    by (simp add: days_in_month_def)
  from assms days_in_month_bounds [of "year d" "month d - 1"] show ?thesis
    unfolding valid_datetime_def minus_one_day_def
    by (auto simp: december split: if_splits)
qed

lemma minus_one_day_ok:
  "valid_datetime d \<Longrightarrow> date_of d \<noteq> (1, 1, 1) \<Longrightarrow> \<exists>y. minus_one_day d = Inr y"
  by (auto simp: valid_datetime_def minus_one_day_def date_of_def)

lemma strftime_m_two: "valid_datetime d \<Longrightarrow> length (strftime_m d) = 2 \<and> list_all is_digit (strftime_m d)"
  using length_show_nat [of 2 "month d"]
  by (simp add: strftime_m_def length_zfill zfill_digits show_nat_digits valid_datetime_def)

lemma strftime_d_two: "valid_datetime d \<Longrightarrow> length (strftime_d d) = 2 \<and> list_all is_digit (strftime_d d)"
  using length_show_nat [of 2 "day d"] days_in_month_bounds [of "year d" "month d"]
  by (simp add: strftime_d_def length_zfill zfill_digits show_nat_digits valid_datetime_def)

text \<open>The program's digits are the decimal digits; its texts of small numbers, digit by digit.\<close>

lemma digit_char_decimal: "k < 10 \<Longrightarrow> digit_char k = decimal_digit k"
proof -
  assume "k < 10"
  then have "k = 0 \<or> k = 1 \<or> k = 2 \<or> k = 3 \<or> k = 4 \<or> k = 5 \<or> k = 6 \<or> k = 7 \<or> k = 8 \<or> k = 9"
    by arith
  then show ?thesis by (elim disjE) (simp_all add: digit_char_def decimal_digit_def)
qed

lemma show_nat_lt10: "n < 10 \<Longrightarrow> show_nat n = [decimal_digit n]"
  by (subst show_nat.simps) (simp add: digit_char_decimal)

lemma show_nat_lt100:
  "10 \<le> n \<Longrightarrow> n < 100 \<Longrightarrow> show_nat n = [decimal_digit (n div 10), decimal_digit (n mod 10)]"
  by (subst show_nat.simps) (simp add: show_nat_lt10 digit_char_decimal)

lemma show_nat_lt1000:
  "100 \<le> n \<Longrightarrow> n < 1000 \<Longrightarrow>
     show_nat n = [decimal_digit (n div 100), decimal_digit (n div 10 mod 10), decimal_digit (n mod 10)]"
  by (subst show_nat.simps) (simp add: show_nat_lt100 digit_char_decimal div_mult2_eq [symmetric])

lemma show_nat_lt10000:
  "1000 \<le> n \<Longrightarrow> n < 10000 \<Longrightarrow>
     show_nat n = [decimal_digit (n div 1000), decimal_digit (n div 100 mod 10),
                   decimal_digit (n div 10 mod 10), decimal_digit (n mod 10)]"
  by (subst show_nat.simps) (simp add: show_nat_lt1000 digit_char_decimal div_mult2_eq [symmetric])

lemma zfill_two_digits: "n < 100 \<Longrightarrow> zfill 2 (show_nat n) = two_digits n"
proof (cases "n < 10")
  case True
  then show ?thesis
    by (simp add: show_nat_lt10 zfill_def two_digits_def) (simp add: decimal_digit_def)
next
  case False
  moreover assume "n < 100"
  ultimately show ?thesis
    by (simp add: show_nat_lt100 zfill_def two_digits_def)
qed

lemma strftime_m_two_digits: "valid_datetime d \<Longrightarrow> strftime_m d = two_digits (month d)"
  by (simp add: strftime_m_def zfill_two_digits valid_datetime_def)

lemma strftime_d_two_digits: "valid_datetime d \<Longrightarrow> strftime_d d = two_digits (day d)"
  using days_in_month_bounds [of "year d" "month d"]
  by (simp add: strftime_d_def zfill_two_digits valid_datetime_def)

lemma strftime_Y_four:
  "valid_datetime d \<Longrightarrow> 1000 \<le> year d
     \<Longrightarrow> length (strftime_Y d) = 4 \<and> list_all is_digit (strftime_Y d)"
proof -
  assume "valid_datetime d" and "1000 \<le> year d"
  then have "length (show_nat (year d)) = 4"
    by (simp add: show_nat_lt10000 valid_datetime_def)
  then show ?thesis by (simp add: strftime_Y_def show_nat_digits)
qed

lemma strftime_Ymd_format: "valid_datetime d \<Longrightarrow> 1000 \<le> year d \<Longrightarrow> is_ymd (strftime_Ymd d)"
  using strftime_Y_four [of d] strftime_m_two [of d] strftime_d_two [of d]
  by (simp add: is_ymd_def strftime_Ymd_def nth_append)

section \<open>Properties of the row serializer\<close>

lemma dict_setitem_fresh: "k \<notin> fst ` set d \<Longrightarrow> dict_setitem k v d = d @ [(k, v)]"
  by (induction d) auto

lemma map_of_dict_setitem: "map_of (dict_setitem k v d) = (map_of d)(k \<mapsto> v)"
  by (induction d) (auto simp: fun_eq_iff)

lemma keys_dict_setitem: "fst ` set (dict_setitem k v d) = insert k (fst ` set d)"
  by (induction d) auto

lemma distinct_dict_setitem:
  "distinct (map fst d) \<Longrightarrow> distinct (map fst (dict_setitem k v d))"
  by (induction d) (auto simp: keys_dict_setitem)

lemma hd_dict_setitem: "d \<noteq> [] \<Longrightarrow> fst (hd (dict_setitem k v d)) = fst (hd d)"
  by (cases d) auto

lemma dict_setitem_nonempty: "dict_setitem k v d \<noteq> []"
  by (cases d) auto

lemma set_columns_ok:
  "idx + length cols \<le> length row \<Longrightarrow> \<exists>data'. set_columns idx cols row data = Inr data'"
  by (induction cols arbitrary: idx data) auto

lemma set_columns_distinct:
  "set_columns idx cols row data = Inr data' \<Longrightarrow> distinct (map fst data)
     \<Longrightarrow> distinct (map fst data')"
  by (induction cols arbitrary: idx data) (auto simp: distinct_dict_setitem split: if_splits)

lemma set_columns_keys:
  "set_columns idx cols row data = Inr data' \<Longrightarrow> fst ` set data' = fst ` set data \<union> set cols"
  by (induction cols arbitrary: idx data) (auto simp: keys_dict_setitem split: if_splits)

lemma set_columns_hd:
  "set_columns idx cols row data = Inr data' \<Longrightarrow> data \<noteq> []
     \<Longrightarrow> data' \<noteq> [] \<and> fst (hd data') = fst (hd data)"
proof (induction cols arbitrary: idx data)
  case Nil
  then show ?case by simp
next
  case (Cons col cols)
  from Cons.prems have lt: "idx < length row"
    and rec: "set_columns (Suc idx) cols row (dict_setitem col (row ! idx) data) = Inr data'"
    by (auto split: if_splits)
  from Cons.IH [OF rec dict_setitem_nonempty] Cons.prems(2) show ?case
    by (simp add: hd_dict_setitem)
qed

lemma set_columns_map_of:
  "set_columns idx cols row data = Inr data'
     \<Longrightarrow> map_of data' = map_of data ++ map_of (rev (zip cols (drop idx row)))"
proof (induction cols arbitrary: idx data)
  case Nil
  then show ?case by simp
next
  case (Cons col cols)
  from Cons.prems have lt: "idx < length row"
    and rec: "set_columns (Suc idx) cols row (dict_setitem col (row ! idx) data) = Inr data'"
    by (auto split: if_splits)
  from lt have dr: "drop idx row = row ! idx # drop (Suc idx) row"
    by (simp add: Cons_nth_drop_Suc)
  have "map_of data' = (map_of data)(col \<mapsto> row ! idx) ++ map_of (rev (zip cols (drop (Suc idx) row)))"
    using Cons.IH [OF rec] unfolding map_of_dict_setitem .
  also have "\<dots> = map_of data ++ map_of (rev (zip (col # cols) (drop idx row)))"
    by (simp add: dr fun_eq_iff map_add_def split: option.splits)
  finally show ?case .
qed

lemma set_columns_fresh:
  "idx + length cols \<le> length row \<Longrightarrow> distinct cols \<Longrightarrow> set cols \<inter> fst ` set data = {}
     \<Longrightarrow> set_columns idx cols row data = Inr (data @ zip cols (drop idx row))"
proof (induction cols arbitrary: idx data)
  case Nil
  then show ?case by simp
next
  case (Cons col cols)
  from Cons.prems(1) have lt: "idx < length row" by simp
  then have dr: "drop idx row = row ! idx # drop (Suc idx) row"
    by (simp add: Cons_nth_drop_Suc)
  from Cons.prems(3) have fresh: "col \<notin> fst ` set data" by auto
  have "set_columns (Suc idx) cols row (data @ [(col, row ! idx)])
          = Inr ((data @ [(col, row ! idx)]) @ zip cols (drop (Suc idx) row))"
    using Cons.prems by (intro Cons.IH) auto
  with lt fresh show ?case by (simp add: dict_setitem_fresh dr)
qed

text \<open>
  No encoded record contains a line break: whatever the values are, the only newline of a
  line is the one that ends it.
\<close>

lemma is_digit_not_newline: "is_digit c \<Longrightarrow> c \<noteq> newline"
  by (auto simp: is_digit_def newline_def)

lemma newline_show_nat: "newline \<notin> set (show_nat n)"
  using show_nat_digits [of n] is_digit_not_newline by (auto simp: list_all_iff)

lemma newline_show_int: "newline \<notin> set (show_int i)"
  by (simp add: show_int_def newline_show_nat) (simp add: newline_def)

lemma newline_hex4: "newline \<notin> set (hex4 n)"
proof -
  have "\<And>k. k < 16 \<Longrightarrow> newline \<noteq> digit_char k"
    using digit_char_lt16 by (fastforce simp: newline_def)
  then show ?thesis by (simp add: hex4_def)
qed

lemma newline_escape_char: "newline \<notin> set (escape_char c)"
  using newline_hex4 [of "of_char c"]
  by (simp add: escape_char_def) (simp add: newline_def backslash_def dquote_def)

lemma newline_json_str: "newline \<notin> set (json_str s)"
  using newline_escape_char by (simp add: json_str_def) (simp add: newline_def dquote_def)

lemma newline_float_repr: "finite_float x \<Longrightarrow> newline \<notin> set (float_repr x)"
proof (cases x)
  case (Finite s)
  assume "finite_float x"
  with Finite have "\<forall>c \<in> set s. c \<in> set ''0123456789+-.e''"
    by (simp only: finite_float.simps float_text_def list_all_iff) blast
  moreover have "newline \<notin> set ''0123456789+-.e''"
    by (simp add: newline_def)
  ultimately have "newline \<notin> set s" by blast
  with Finite show ?thesis by simp
qed simp_all

lemma newline_join:
  "newline \<notin> set sep \<Longrightarrow> \<forall>x \<in> set xs. newline \<notin> set x \<Longrightarrow> newline \<notin> set (join sep xs)"
  by (induction sep xs rule: join.induct) auto

lemma newline_json_val: "finite_value v \<Longrightarrow> newline \<notin> set (json_val dflt v)"
proof (induction dflt v rule: json_val.induct)
  case (6 dflt vs)
  have sep: "newline \<notin> set '', ''" by (simp add: newline_def)
  have "newline \<notin> set (join '', '' (map (json_val dflt) vs))"
    using 6 by (intro newline_join [OF sep]) (simp add: list_all_iff)
  then show ?case by simp (simp add: newline_def)
next
  case (7 dflt kvs)
  have sep: "newline \<notin> set '', ''" by (simp add: newline_def)
  have colon: "newline \<notin> set '': ''" by (simp add: newline_def)
  have "newline \<notin> set (join '', ''
          (map (\<lambda>kv. json_str (fst kv) @ '': '' @ json_val dflt (snd kv)) kvs))"
    using 7 colon by (intro newline_join [OF sep]) (simp add: list_all_iff newline_json_str)
  then show ?case by simp (simp add: newline_def)
qed (simp_all add: newline_show_int newline_json_str newline_float_repr split: option.splits,
     simp_all add: newline_def)

lemma newline_json_dumps:
  "list_all (\<lambda>kv. finite_value (snd kv)) data \<Longrightarrow> newline \<notin> set (json_dumps dflt data)"
proof -
  assume fin: "list_all (\<lambda>kv. finite_value (snd kv)) data"
  have colon: "newline \<notin> set '': ''" by (simp add: newline_def)
  have item: "\<And>kv. kv \<in> set data \<Longrightarrow> newline \<notin> set (json_item dflt kv)"
    using fin colon by (simp add: json_item_def list_all_iff newline_json_str newline_json_val)
  have sep: "newline \<notin> set '', ''" by (simp add: newline_def)
  have "newline \<notin> set (join '', '' (map (json_item dflt) data))"
    by (rule newline_join [OF sep]) (simp add: item)
  then show ?thesis by (simp add: json_dumps_def) (simp add: newline_def)
qed

section \<open>Claims about the row serializer and the partition path\<close>

lemma valid_noon: "valid_datetime noon"
  by (simp add: valid_datetime_def noon_def days_in_month_def)

lemma minus_noon: "minus_one_day noon = Inr (noon\<lparr>day := 5\<rparr>)"
  by (simp add: minus_one_day_def noon_def)

text \<open>
  \<^bold>\<open>C6\<close>, as stated, fails in four ways. Two columns of one name give one key, with the
  value of the last. When the day before the clock's date lies before the year 1000,
  \<^verbatim>\<open>%Y\<close> writes fewer than four digits. A float that is not a number is written as
  \<^verbatim>\<open>NaN\<close>, which is not JSON. And for a query that returns a column named
  \<^verbatim>\<open>snapshot_date\<close>, the record of the row \<^verbatim>\<open>(7,)\<close> is \<^verbatim>\<open>{"snapshot_date": 7}\<close>, whose first
  value is not a date and which has no key after the first.
\<close>

theorem snapshot_date_column_replaces_date:
  "row_record noon [''id'', ''id''] [PInt 1, PInt 2 :: datetime pyval]
     = Inr [(''snapshot_date'', PStr ''2023-03-05''), (''id'', PInt 2)]
   \<and> row_record (noon\<lparr>year := 1000, month := 1, day := 1\<rparr>) [] ([] :: datetime pyval list)
     = Inr [(''snapshot_date'', PStr ''999-12-31'')]
   \<and> \<not> is_ymd ''999-12-31''
   \<and> row_line (date_string_or_none quiet_env) noon [''ratio''] [PFloat NaN]
     = Inr (''{'' @ [dquote] @ ''snapshot_date'' @ [dquote] @ '': '' @ [dquote] @ ''2023-03-05''
             @ [dquote] @ '', '' @ [dquote] @ ''ratio'' @ [dquote] @ '': NaN}'' @ [newline])
   \<and> row_record noon [''snapshot_date''] [PInt 7 :: datetime pyval] = Inr [(''snapshot_date'', PInt 7)]
   \<and> row_line (date_string_or_none quiet_env) noon [''snapshot_date''] [PInt 7]
        = Inr (''{'' @ [dquote] @ ''snapshot_date'' @ [dquote] @ '': 7}'' @ [newline])
   \<and> \<not> is_ymd ''7''"
  by (simp add: row_line_def row_record_def minus_one_day_def noon_def json_dumps_def json_item_def
      json_str_def escape_char_def dquote_def backslash_def newline_def show_int_def
      show_nat.simps digit_char_def is_ymd_def strftime_Ymd_def strftime_Y_def strftime_m_def
      strftime_d_def zfill_def is_digit_def)

text \<open>
  \<^bold>\<open>C6\<close>, amended. For every extracted row that has a value for each column, when the
  column names the cursor reports are pairwise distinct and none of them is
  \<^verbatim>\<open>snapshot_date\<close>, no value is or contains a float that is not a number, and the day
  before the clock's date lies in the years 1000 to 9999: the serializer produces the
  encoding of the record whose first key is \<^verbatim>\<open>snapshot_date\<close>, with a value in the format
  \<^verbatim>\<open>YYYY-MM-DD\<close>, followed by each column name with its value in the order of the
  cursor; the line ends with a newline and contains no other.
\<close>

theorem row_line_columns_in_order:
  assumes "valid_datetime today" and "minus_one_day today = Inr y" and "1000 \<le> year y"
    and "length description \<le> length row"
    and "distinct description" and "''snapshot_date'' \<notin> set description"
    and "list_all finite_value row"
  shows "row_line dflt today description row =
           Inr (json_dumps dflt ((''snapshot_date'', PStr (strftime_Ymd y)) # zip description row)
                  @ [newline])
         \<and> is_ymd (strftime_Ymd y)
         \<and> newline \<notin> set (json_dumps dflt
                 ((''snapshot_date'', PStr (strftime_Ymd y)) # zip description row))"
proof -
  have "set_columns 0 description row [(''snapshot_date'', PStr (strftime_Ymd y))]
          = Inr ([(''snapshot_date'', PStr (strftime_Ymd y))] @ zip description (drop 0 row))"
    using assms(4-6) by (intro set_columns_fresh) auto
  then have "row_record today description row
          = Inr ((''snapshot_date'', PStr (strftime_Ymd y)) # zip description row)"
    using assms(2) by (simp add: row_record_def)
  moreover have "is_ymd (strftime_Ymd y)"
    by (rule strftime_Ymd_format [OF minus_one_day_valid [OF assms(1,2)] assms(3)])
  moreover have "list_all (\<lambda>kv. finite_value (snd kv))
          ((''snapshot_date'', PStr (strftime_Ymd y)) # zip description row)"
    using assms(7) by (auto simp: list_all_iff dest: set_zip_rightD)
  ultimately show ?thesis
    by (simp add: row_line_def newline_json_dumps)
qed

theorem row_line_columns_in_order_witness:
  "row_line (date_string_or_none quiet_env) noon [''id'', ''created_at'', ''name'']
       [PInt 1, PObj (noon\<lparr>day := 1\<rparr>), PStr ''ann'']
     = Inr (json_dumps (date_string_or_none quiet_env)
         [(''snapshot_date'', PStr (strftime_Ymd (noon\<lparr>day := 5\<rparr>))), (''id'', PInt 1),
          (''created_at'', PObj (noon\<lparr>day := 1\<rparr>)), (''name'', PStr ''ann'')] @ [newline])
     \<and> is_ymd (strftime_Ymd (noon\<lparr>day := 5\<rparr>))"
proof -
  have y: "1000 \<le> year (noon\<lparr>day := 5\<rparr>)" by (simp add: noon_def)
  show ?thesis
    using row_line_columns_in_order [OF valid_noon minus_noon y,
        of "[''id'', ''created_at'', ''name'']"
        "[PInt 1, PObj (noon\<lparr>day := 1\<rparr>), PStr ''ann'']" "date_string_or_none quiet_env"]
    by simp
qed

text \<open>
  \<^bold>\<open>C9\<close>. If the cursor reports a column named \<^verbatim>\<open>snapshot_date\<close>, the record of a row
  has that key once, in first place, with the value of the source column (the last one of
  that name), not the injected date; its keys are exactly the column names, so it has as
  many fields as there are different column names and not one more.
\<close>

theorem row_record_snapshot_date_column:
  assumes "minus_one_day today = Inr y" and "length description \<le> length row"
    and "''snapshot_date'' \<in> set description"
  shows "\<exists>data. row_record today description row = Inr data
           \<and> fst (hd data) = ''snapshot_date''
           \<and> distinct (map fst data)
           \<and> fst ` set data = set description
           \<and> length data = card (set description)
           \<and> map_of data = map_of (rev (zip description row))
           \<and> (distinct description \<longrightarrow> map_of data = map_of (zip description row))"
proof -
  let ?d0 = "[(''snapshot_date'', PStr (strftime_Ymd y))]"
  from assms(2) obtain data where sc: "set_columns 0 description row ?d0 = Inr data"
    using set_columns_ok [of 0 description row ?d0] by auto
  then have rr: "row_record today description row = Inr data"
    using assms(1) by (simp add: row_record_def)
  have first: "fst (hd data) = ''snapshot_date''"
    using set_columns_hd [OF sc] by simp
  have dist: "distinct (map fst data)"
    using set_columns_distinct [OF sc] by simp
  have keys: "fst ` set data = set description"
    using set_columns_keys [OF sc] assms(3) by auto
  have len: "length data = card (set description)"
    using distinct_card [OF dist] keys by simp
  have fz: "fst ` set (zip description row) = set description"
    using assms(2) map_fst_zip_take [of description row]
    by (metis list.set_map min.absorb1 order_refl take_all)
  have "map_of data = map_of ?d0 ++ map_of (rev (zip description row))"
    using set_columns_map_of [OF sc] by simp
  also have "\<dots> = map_of (rev (zip description row))"
  proof (rule ext)
    fix k
    show "(map_of ?d0 ++ map_of (rev (zip description row))) k = map_of (rev (zip description row)) k"
    proof (cases "k = ''snapshot_date''")
      case True
      with assms(3) fz have "k \<in> dom (map_of (rev (zip description row)))"
        by (simp add: dom_map_of_conv_image_fst)
      then show ?thesis by (simp add: map_add_dom_app_simps)
    next
      case False
      then show ?thesis by (simp add: map_add_def split: option.splits)
    qed
  qed
  finally have mo: "map_of data = map_of (rev (zip description row))" .
  have "map_of (rev (zip description row)) = map_of (zip description row)" if "distinct description"
  proof -
    from that have "distinct (map fst (zip description row))"
      by (simp add: map_fst_zip_take distinct_take)
    then show ?thesis by (subst map_of_inject_set) (simp_all add: distinct_rev rev_map [symmetric])
  qed
  with rr first dist keys len mo show ?thesis by simp
qed

theorem row_record_snapshot_date_column_witness:
  "\<exists>data. row_record noon [''id'', ''snapshot_date''] [PInt 7, PStr ''stale'' :: datetime pyval] = Inr data
    \<and> length data = 2 \<and> map_of data ''snapshot_date'' = Some (PStr ''stale'')"
proof -
  have len: "length [''id'', ''snapshot_date''] \<le> length [PInt 7, PStr ''stale'' :: datetime pyval]"
    and col: "''snapshot_date'' \<in> set [''id'', ''snapshot_date'']"
    by simp_all
  from row_record_snapshot_date_column [OF minus_noon len col]
  obtain data where
    "row_record noon [''id'', ''snapshot_date''] [PInt 7, PStr ''stale'' :: datetime pyval] = Inr data"
    and "length data = card (set [''id'', ''snapshot_date''])"
    and "map_of data
           = map_of (rev (zip [''id'', ''snapshot_date''] [PInt 7, PStr ''stale'' :: datetime pyval]))"
    by blast
  then show ?thesis by simp
qed

text \<open>
  \<^bold>\<open>C7\<close>. For every valid date, each of the three partition paths is the dataset, the
  year as \<^verbatim>\<open>"{}".format\<close> writes it (four digits from the year 1000 on), the month in two
  digits, the day in two digits and the leaf, so that month and day are zero-padded in
  the path itself. The paths depend on the calendar date of \<^verbatim>\<open>day\<close> alone: two values
  with the same year, month and day give the same paths, whatever their time of day. For
  2023-03-05 the path of the users dump is
  \<^verbatim>\<open>users/snapshot_year=2023/snapshot_month=03/snapshot_day=05/data\<close>.
\<close>

theorem partition_path_deterministic:
  assumes "valid_datetime d"
  shows "users_dump_to d = ''users/snapshot_year='' @ show_nat (year d) @ ''/snapshot_month=''
           @ two_digits (month d) @ ''/snapshot_day='' @ two_digits (day d) @ ''/data''
       \<and> projects_dump_to d = ''projects/snapshot_year='' @ show_nat (year d) @ ''/snapshot_month=''
           @ two_digits (month d) @ ''/snapshot_day='' @ two_digits (day d) @ ''/data''
       \<and> activities_dump_to d = ''activities/snapshot_year='' @ show_nat (year d)
           @ ''/snapshot_month='' @ two_digits (month d) @ ''/snapshot_day='' @ two_digits (day d)
           @ ''/incremental''
       \<and> (year d < 10 \<longrightarrow> show_nat (year d) = [decimal_digit (year d)])
       \<and> (10 \<le> year d \<and> year d < 100 \<longrightarrow>
            show_nat (year d) = [decimal_digit (year d div 10), decimal_digit (year d mod 10)])
       \<and> (100 \<le> year d \<and> year d < 1000 \<longrightarrow>
            show_nat (year d) = [decimal_digit (year d div 100), decimal_digit (year d div 10 mod 10),
                                 decimal_digit (year d mod 10)])
       \<and> (1000 \<le> year d \<longrightarrow>
            show_nat (year d) = [decimal_digit (year d div 1000), decimal_digit (year d div 100 mod 10),
                                 decimal_digit (year d div 10 mod 10), decimal_digit (year d mod 10)])
       \<and> (date_of d' = date_of d \<longrightarrow>
            users_dump_to d' = users_dump_to d \<and> projects_dump_to d' = projects_dump_to d
            \<and> activities_dump_to d' = activities_dump_to d)
       \<and> (date_of d = (2023, 3, 5) \<longrightarrow>
            users_dump_to d = ''users/snapshot_year=2023/snapshot_month=03/snapshot_day=05/data'')"
proof -
  have paths: "date_params d = ''snapshot_year='' @ show_nat (year d) @ ''/snapshot_month=''
           @ two_digits (month d) @ ''/snapshot_day='' @ two_digits (day d)"
    using assms by (simp add: date_params_def strftime_m_two_digits strftime_d_two_digits)
  have same: "date_params d' = date_params d" if "date_of d' = date_of d"
    using that by (simp add: date_of_def date_params_def strftime_m_def strftime_d_def)
  have march: "users_dump_to d = ''users/snapshot_year=2023/snapshot_month=03/snapshot_day=05/data''"
    if "date_of d = (2023, 3, 5)"
  proof -
    have "show_nat 2023 = ''2023''" "show_nat 3 = ''3''" "show_nat 5 = ''5''"
      by (simp_all add: show_nat.simps digit_char_def)
    moreover from that have "year d = 2023" "month d = 3" "day d = 5"
      by (simp_all add: date_of_def)
    ultimately show ?thesis
      by (simp add: users_dump_to_def date_params_def strftime_m_def strftime_d_def zfill_def)
  qed
  have years: "year d < 10 \<longrightarrow> show_nat (year d) = [decimal_digit (year d)]"
    "10 \<le> year d \<and> year d < 100 \<longrightarrow>
       show_nat (year d) = [decimal_digit (year d div 10), decimal_digit (year d mod 10)]"
    "100 \<le> year d \<and> year d < 1000 \<longrightarrow>
       show_nat (year d) = [decimal_digit (year d div 100), decimal_digit (year d div 10 mod 10),
                            decimal_digit (year d mod 10)]"
    "1000 \<le> year d \<longrightarrow>
       show_nat (year d) = [decimal_digit (year d div 1000), decimal_digit (year d div 100 mod 10),
                            decimal_digit (year d div 10 mod 10), decimal_digit (year d mod 10)]"
    using assms
    by (simp_all add: show_nat_lt10 show_nat_lt100 show_nat_lt1000 show_nat_lt10000
        valid_datetime_def)
  have u: "users_dump_to d = ''users/snapshot_year='' @ show_nat (year d) @ ''/snapshot_month=''
           @ two_digits (month d) @ ''/snapshot_day='' @ two_digits (day d) @ ''/data''"
    by (simp add: users_dump_to_def paths)
  have p: "projects_dump_to d = ''projects/snapshot_year='' @ show_nat (year d) @ ''/snapshot_month=''
           @ two_digits (month d) @ ''/snapshot_day='' @ two_digits (day d) @ ''/data''"
    by (simp add: projects_dump_to_def paths)
  have a: "activities_dump_to d = ''activities/snapshot_year='' @ show_nat (year d)
           @ ''/snapshot_month='' @ two_digits (month d) @ ''/snapshot_day='' @ two_digits (day d)
           @ ''/incremental''"
    by (simp add: activities_dump_to_def paths)
  have det: "date_of d' = date_of d \<longrightarrow>
            users_dump_to d' = users_dump_to d \<and> projects_dump_to d' = projects_dump_to d
            \<and> activities_dump_to d' = activities_dump_to d"
    using same by (simp add: users_dump_to_def projects_dump_to_def activities_dump_to_def)
  from u p a years det march show ?thesis by blast
qed

theorem partition_path_deterministic_witness:
  "users_dump_to (noon\<lparr>day := 5, hour := 3\<rparr>) = users_dump_to (noon\<lparr>day := 5\<rparr>)
     \<and> users_dump_to (noon\<lparr>day := 5\<rparr>)
          = ''users/snapshot_year=2023/snapshot_month=03/snapshot_day=05/data''
     \<and> activities_dump_to (noon\<lparr>month := 10, day := 31\<rparr>)
          = ''activities/snapshot_year='' @ show_nat 2023
              @ ''/snapshot_month=10/snapshot_day=31/incremental''"
proof -
  have v: "valid_datetime (noon\<lparr>day := 5\<rparr>)"
    by (simp add: valid_datetime_def noon_def days_in_month_def)
  have v': "valid_datetime (noon\<lparr>month := 10, day := 31\<rparr>)"
    by (simp add: valid_datetime_def noon_def days_in_month_def)
  have d1: "date_of (noon\<lparr>day := 5, hour := 3\<rparr>) = date_of (noon\<lparr>day := 5\<rparr>)"
    and d2: "date_of (noon\<lparr>day := 5\<rparr>) = (2023, 3, 5)"
    by (simp_all add: date_of_def noon_def)
  from partition_path_deterministic [OF v, of "noon\<lparr>day := 5, hour := 3\<rparr>"] d1 d2
  have c1: "users_dump_to (noon\<lparr>day := 5, hour := 3\<rparr>) = users_dump_to (noon\<lparr>day := 5\<rparr>)"
    and c2: "users_dump_to (noon\<lparr>day := 5\<rparr>)
          = ''users/snapshot_year=2023/snapshot_month=03/snapshot_day=05/data''"
    by blast+
  from partition_path_deterministic [OF v', of noon]
  have "activities_dump_to (noon\<lparr>month := 10, day := 31\<rparr>)
      = ''activities/snapshot_year='' @ show_nat (year (noon\<lparr>month := 10, day := 31\<rparr>))
         @ ''/snapshot_month='' @ two_digits (month (noon\<lparr>month := 10, day := 31\<rparr>))
         @ ''/snapshot_day='' @ two_digits (day (noon\<lparr>month := 10, day := 31\<rparr>))
         @ ''/incremental''"
    by blast
  then have c3: "activities_dump_to (noon\<lparr>month := 10, day := 31\<rparr>)
          = ''activities/snapshot_year='' @ show_nat 2023
              @ ''/snapshot_month=10/snapshot_day=31/incremental''"
    by (simp add: noon_def two_digits_def decimal_digit_def)
  from c1 c2 c3 show ?thesis by blast
qed

section \<open>Properties of dump\<close>

lemmas dump_defs = dump_def write_to_s3_def copy_into_redshift_def Let_def

lemmas dump_splits = cursor_result.splits prod.splits option.splits sum.splits

text \<open>Frame properties: what a dump never touches, and what it always does.\<close>

lemma dump_wh_visible: "wh_visible (snd (dump env to_file copy_to query params w)) = wh_visible w"
  by (simp add: dump_defs split: dump_splits)

lemma dump_src_in_tx: "src_in_tx (snd (dump env to_file copy_to query params w))"
  by (simp add: dump_defs split: dump_splits)

lemma dump_next_tmp:
  "next_tmp (snd (dump env to_file copy_to query params w)) = Suc (next_tmp w)"
  by (simp add: dump_defs split: dump_splits)

text \<open>
  Whatever happens in a dump, its calls on the source connection are the same: the query
  is executed, in a transaction begun for it if none was open; and it never commits.
\<close>

lemma dump_src_events:
  "\<exists>evs. trace (snd (dump env to_file copy_to query params w)) = trace w @ evs
      \<and> filter is_src evs = (if src_in_tx w then [] else [SrcBegin]) @ [SrcExecute query params]
      \<and> WhCommit \<notin> set evs"
  by (simp add: dump_defs split: dump_splits)

lemma dump_success:
  assumes "fst (dump env to_file copy_to query params w) = Inr ()"
  shows "trace (snd (dump env to_file copy_to query params w))
           = trace w @ dump_calls env (next_tmp w) (src_in_tx w) to_file copy_to query params"
    and "wh_pending (snd (dump env to_file copy_to query params w))
           = wh_pending w @ [(copy_to, s3_uri env to_file)]"
  using assms
  by (simp_all add: dump_defs dump_calls_def s3_uri_def split: dump_splits)

section \<open>Properties of main\<close>

lemma run_dumps_cases:
  assumes d: "minus_one_day (clock env (ticks w)) = Inr d"
    and u: "dump env (users_dump_to d) ''users'' users_query None (w\<lparr>ticks := Suc (ticks w)\<rparr>)
              = (ru, w1)"
    and p: "dump env (projects_dump_to d) ''projects'' projects_query None w1 = (rp, w2)"
    and a: "dump env (activities_dump_to d) ''activities'' activities_query (Some [date_of d]) w2
              = (ra, w3)"
  shows "run_dumps env w =
           (case ru of Inl e \<Rightarrow> (Inl e, w1)
            | Inr x \<Rightarrow> (case rp of Inl e \<Rightarrow> (Inl e, w2) | Inr y \<Rightarrow> (ra, w3)))"
  using assms by (simp add: run_dumps_def Let_def split: sum.splits)

lemma run_dumps_wh_visible: "wh_visible (snd (run_dumps env w)) = wh_visible w"
proof (cases "minus_one_day (clock env (ticks w))")
  case (Inl e)
  then show ?thesis by (simp add: run_dumps_def Let_def)
next
  case (Inr d)
  let ?w0 = "w\<lparr>ticks := Suc (ticks w)\<rparr>"
  obtain ru w1 where u: "dump env (users_dump_to d) ''users'' users_query None ?w0 = (ru, w1)"
    by (cases "dump env (users_dump_to d) ''users'' users_query None ?w0")
  obtain rp w2 where p: "dump env (projects_dump_to d) ''projects'' projects_query None w1 = (rp, w2)"
    by (cases "dump env (projects_dump_to d) ''projects'' projects_query None w1")
  obtain ra w3 where a:
    "dump env (activities_dump_to d) ''activities'' activities_query (Some [date_of d]) w2 = (ra, w3)"
    by (cases "dump env (activities_dump_to d) ''activities'' activities_query (Some [date_of d]) w2")
  have v1: "wh_visible w1 = wh_visible w"
    using dump_wh_visible [of env "users_dump_to d" "''users''" users_query None ?w0] u by simp
  have v2: "wh_visible w2 = wh_visible w1"
    using dump_wh_visible [of env "projects_dump_to d" "''projects''" projects_query None w1] p
    by simp
  have v3: "wh_visible w3 = wh_visible w2"
    using dump_wh_visible [of env "activities_dump_to d" "''activities''" activities_query
        "Some [date_of d]" w2] a
    by simp
  show ?thesis
    unfolding run_dumps_cases [OF Inr u p a] using v1 v2 v3 by (simp split: sum.splits)
qed

text \<open>
  The calls of the block of dumps on the source connection, however far it gets: one
  \<open>SrcBegin\<close>, then the queries of the first \<open>k\<close> dumps; all three exactly when no dump
  raises.
\<close>

lemma run_dumps_src_events:
  assumes d: "minus_one_day (clock env (ticks w)) = Inr d" and tx: "\<not> src_in_tx w"
  shows "\<exists>k evs. 1 \<le> k \<and> k \<le> 3
      \<and> trace (snd (run_dumps env w)) = trace w @ evs
      \<and> filter is_src evs = SrcBegin #
          take k [SrcExecute users_query None, SrcExecute projects_query None,
                  SrcExecute activities_query (Some [date_of d])]
      \<and> WhCommit \<notin> set evs
      \<and> (fst (run_dumps env w) = Inr () \<longrightarrow> k = 3)
      \<and> (k < 3 \<longrightarrow> fst (run_dumps env w) \<noteq> Inr ())"
proof -
  let ?w0 = "w\<lparr>ticks := Suc (ticks w)\<rparr>"
  obtain ru w1 where u: "dump env (users_dump_to d) ''users'' users_query None ?w0 = (ru, w1)"
    by (cases "dump env (users_dump_to d) ''users'' users_query None ?w0")
  obtain rp w2 where p: "dump env (projects_dump_to d) ''projects'' projects_query None w1 = (rp, w2)"
    by (cases "dump env (projects_dump_to d) ''projects'' projects_query None w1")
  obtain ra w3 where a:
    "dump env (activities_dump_to d) ''activities'' activities_query (Some [date_of d]) w2 = (ra, w3)"
    by (cases "dump env (activities_dump_to d) ''activities'' activities_query (Some [date_of d]) w2")
  note rd = run_dumps_cases [OF d u p a]
  from dump_src_events [of env "users_dump_to d" "''users''" users_query None ?w0] u tx
  obtain evs1 where e1: "trace w1 = trace w @ evs1"
      "filter is_src evs1 = [SrcBegin, SrcExecute users_query None]" "WhCommit \<notin> set evs1"
    by auto
  have tx1: "src_in_tx w1"
    using dump_src_in_tx [of env "users_dump_to d" "''users''" users_query None ?w0] u by simp
  from dump_src_events [of env "projects_dump_to d" "''projects''" projects_query None w1] p tx1
  obtain evs2 where e2: "trace w2 = trace w1 @ evs2"
      "filter is_src evs2 = [SrcExecute projects_query None]" "WhCommit \<notin> set evs2"
    by auto
  have tx2: "src_in_tx w2"
    using dump_src_in_tx [of env "projects_dump_to d" "''projects''" projects_query None w1] p
    by simp
  from dump_src_events [of env "activities_dump_to d" "''activities''" activities_query
      "Some [date_of d]" w2] a tx2
  obtain evs3 where e3: "trace w3 = trace w2 @ evs3"
      "filter is_src evs3 = [SrcExecute activities_query (Some [date_of d])]" "WhCommit \<notin> set evs3"
    by auto
  show ?thesis
  proof (cases ru)
    case (Inl e)
    with rd e1 show ?thesis
      by (intro exI [of _ 1] exI [of _ evs1]) simp
  next
    case ru: (Inr x)
    show ?thesis
    proof (cases rp)
      case (Inl e)
      with rd ru e1 e2 show ?thesis
        by (intro exI [of _ 2] exI [of _ "evs1 @ evs2"]) simp
    next
      case (Inr y)
      with rd ru e1 e2 e3 show ?thesis
        by (intro exI [of _ 3] exI [of _ "evs1 @ evs2 @ evs3"]) simp
    qed
  qed
qed

text \<open>The whole trace of a block of dumps in which nothing raises.\<close>

lemma run_dumps_success:
  assumes ok: "fst (run_dumps env w) = Inr ()"
  shows "\<exists>d. minus_one_day (clock env (ticks w)) = Inr d
     \<and> trace (snd (run_dumps env w)) = trace w
          @ dump_calls env (next_tmp w) (src_in_tx w) (users_dump_to d) ''users'' users_query None
          @ dump_calls env (Suc (next_tmp w)) True (projects_dump_to d) ''projects'' projects_query None
          @ dump_calls env (Suc (Suc (next_tmp w))) True (activities_dump_to d) ''activities''
              activities_query (Some [date_of d])
     \<and> wh_pending (snd (run_dumps env w)) = wh_pending w
          @ [(''users'', s3_uri env (users_dump_to d)), (''projects'', s3_uri env (projects_dump_to d)),
             (''activities'', s3_uri env (activities_dump_to d))]"
proof -
  from ok obtain d where d: "minus_one_day (clock env (ticks w)) = Inr d"
    by (cases "minus_one_day (clock env (ticks w))") (auto simp: run_dumps_def Let_def)
  let ?w0 = "w\<lparr>ticks := Suc (ticks w)\<rparr>"
  obtain ru w1 where u: "dump env (users_dump_to d) ''users'' users_query None ?w0 = (ru, w1)"
    by (cases "dump env (users_dump_to d) ''users'' users_query None ?w0")
  obtain rp w2 where p: "dump env (projects_dump_to d) ''projects'' projects_query None w1 = (rp, w2)"
    by (cases "dump env (projects_dump_to d) ''projects'' projects_query None w1")
  obtain ra w3 where a:
    "dump env (activities_dump_to d) ''activities'' activities_query (Some [date_of d]) w2 = (ra, w3)"
    by (cases "dump env (activities_dump_to d) ''activities'' activities_query (Some [date_of d]) w2")
  note rd = run_dumps_cases [OF d u p a]
  from ok rd have res: "ru = Inr ()" "rp = Inr ()" "ra = Inr ()"
    by (auto split: sum.splits)
  with rd have w3: "snd (run_dumps env w) = w3" by simp
  have s1: "trace w1 = trace w
        @ dump_calls env (next_tmp w) (src_in_tx w) (users_dump_to d) ''users'' users_query None"
      "wh_pending w1 = wh_pending w @ [(''users'', s3_uri env (users_dump_to d))]"
    using dump_success [of env "users_dump_to d" "''users''" users_query None ?w0] u res by simp_all
  have n1: "next_tmp w1 = Suc (next_tmp w)" "src_in_tx w1"
    using dump_next_tmp [of env "users_dump_to d" "''users''" users_query None ?w0]
      dump_src_in_tx [of env "users_dump_to d" "''users''" users_query None ?w0] u by simp_all
  have s2: "trace w2 = trace w1
        @ dump_calls env (Suc (next_tmp w)) True (projects_dump_to d) ''projects'' projects_query None"
      "wh_pending w2 = wh_pending w1 @ [(''projects'', s3_uri env (projects_dump_to d))]"
    using dump_success [of env "projects_dump_to d" "''projects''" projects_query None w1] p res n1
    by simp_all
  have n2: "next_tmp w2 = Suc (Suc (next_tmp w))" "src_in_tx w2"
    using dump_next_tmp [of env "projects_dump_to d" "''projects''" projects_query None w1]
      dump_src_in_tx [of env "projects_dump_to d" "''projects''" projects_query None w1] p n1
    by simp_all
  have s3: "trace w3 = trace w2
        @ dump_calls env (Suc (Suc (next_tmp w))) True (activities_dump_to d) ''activities''
            activities_query (Some [date_of d])"
      "wh_pending w3 = wh_pending w2 @ [(''activities'', s3_uri env (activities_dump_to d))]"
    using dump_success [of env "activities_dump_to d" "''activities''" activities_query
        "Some [date_of d]" w2] a res n2
    by simp_all
  from d w3 s1 s2 s3 show ?thesis by simp
qed

lemma main_success:
  assumes "fst (main env w) = Inr ()"
  shows "fst (run_dumps env (w\<lparr>src_in_tx := False, wh_pending := []\<rparr>)) = Inr ()"
    and "trace (snd (main env w))
           = trace (snd (run_dumps env (w\<lparr>src_in_tx := False, wh_pending := []\<rparr>)))
               @ [SrcCommit, WhCommit]"
    and "wh_visible (snd (main env w))
           = wh_visible w
               @ wh_pending (snd (run_dumps env (w\<lparr>src_in_tx := False, wh_pending := []\<rparr>)))"
  using assms run_dumps_wh_visible [of env "w\<lparr>src_in_tx := False, wh_pending := []\<rparr>"]
  by (auto simp: main_def Let_def split: option.splits prod.splits sum.splits)

lemma main_after_failed_dumps:
  assumes "replica_connect env = None" and "redshift_connect env = None"
    and "run_dumps env (w\<lparr>src_in_tx := False, wh_pending := []\<rparr>) = (Inl e, w')"
  shows "main env w = (Inl e, abort_run w')"
  using assms by (simp add: main_def)

text \<open>
  The calls of \<^verbatim>\<open>main\<close> on the source connection, in every run that gets as far as the
  first dump: the begin of one transaction, the queries of the dumps that were started, and
  last the commit or the rollback that ends the block.
\<close>

lemma main_src_events:
  assumes "replica_connect env = None" and "redshift_connect env = None"
    and d: "minus_one_day (clock env (ticks w)) = Inr d"
  shows "\<exists>k fin. 1 \<le> k \<and> k \<le> 3 \<and> (fin = SrcCommit \<or> fin = SrcRollback)
     \<and> filter is_src (new_events w (snd (main env w))) =
         SrcBegin # take k [SrcExecute users_query None, SrcExecute projects_query None,
                            SrcExecute activities_query (Some [date_of d])] @ [fin]
     \<and> (fst (main env w) = Inr () \<longrightarrow> k = 3 \<and> fin = SrcCommit)
     \<and> (k < 3 \<longrightarrow> fin = SrcRollback)"
proof -
  let ?w = "w\<lparr>src_in_tx := False, wh_pending := []\<rparr>"
  have d': "minus_one_day (clock env (ticks ?w)) = Inr d" using d by simp
  have tx: "\<not> src_in_tx ?w" by simp
  from run_dumps_src_events [OF d' tx] obtain k evs where
    k: "1 \<le> k" "k \<le> 3"
    and evs: "trace (snd (run_dumps env ?w)) = trace w @ evs"
    and src: "filter is_src evs = SrcBegin #
          take k [SrcExecute users_query None, SrcExecute projects_query None,
                  SrcExecute activities_query (Some [date_of d])]"
    and ok: "fst (run_dumps env ?w) = Inr () \<longrightarrow> k = 3"
    and ko: "k < 3 \<longrightarrow> fst (run_dumps env ?w) \<noteq> Inr ()"
    by auto
  show ?thesis
  proof (cases "fst (run_dumps env ?w)")
    case (Inl e)
    then have "run_dumps env ?w = (Inl e, snd (run_dumps env ?w))"
      by (metis prod.collapse)
    from main_after_failed_dumps [OF assms(1,2) this] k evs src
    show ?thesis
      by (intro exI [of _ k] exI [of _ SrcRollback]) (simp add: abort_run_def new_events_def)
  next
    case (Inr x)
    with ok ko have k3: "k = 3" by simp
    obtain w' where rd: "run_dumps env ?w = (Inr (), w')"
      using Inr by (cases "run_dumps env ?w") auto
    with evs have tr: "trace w' = trace w @ evs" by simp
    have "\<exists>ws. trace (snd (main env w)) = trace w @ evs @ SrcCommit # ws \<and> filter is_src ws = []"
      using assms(1,2) rd tr
      by (auto simp: main_def Let_def split: option.splits)
    then obtain ws where "trace (snd (main env w)) = trace w @ evs @ SrcCommit # ws"
      "filter is_src ws = []" by blast
    with k3 src show ?thesis
      by (intro exI [of _ 3] exI [of _ SrcCommit]) (simp add: new_events_def)
  qed
qed

section \<open>Properties of the snapshots\<close>

text \<open>Calls that are not on the source connection read nothing.\<close>

lemma snapshots_no_src: "filter is_src evs = [] \<Longrightarrow> snapshots lvl committed i snap evs = []"
proof (induction evs arbitrary: i snap)
  case Nil
  then show ?case by simp
next
  case (Cons e evs)
  then show ?case by (cases e) simp_all
qed

text \<open>
  Above read committed, the queries that follow the first one in a transaction read the
  snapshot of the first, up to the end of the transaction.
\<close>

lemma snapshots_in_transaction:
  assumes "lvl \<noteq> ReadCommitted"
    and "filter is_src evs = map (\<lambda>qp. SrcExecute (fst qp) (snd qp)) qps @ [fin]"
    and "fin = SrcCommit \<or> fin = SrcRollback"
  shows "snapshots lvl committed i (Some s) evs = replicate (length qps) s"
  using assms(2)
proof (induction evs arbitrary: i qps)
  case Nil
  then show ?case by simp
next
  case (Cons e evs)
  show ?case
  proof (cases "is_src e")
    case False
    with Cons.prems have "filter is_src evs = map (\<lambda>qp. SrcExecute (fst qp) (snd qp)) qps @ [fin]"
      by simp
    from Cons.IH [OF this] False show ?thesis by (cases e) simp_all
  next
    case True
    show ?thesis
    proof (cases qps)
      case Nil
      with True Cons.prems have "e = fin" and "filter is_src evs = []" by simp_all
      with Nil assms(3) show ?thesis by (auto simp: snapshots_no_src)
    next
      case (Cons qp rest)
      with True Cons.prems have e: "e = SrcExecute (fst qp) (snd qp)"
        and "filter is_src evs = map (\<lambda>qp. SrcExecute (fst qp) (snd qp)) rest @ [fin]"
        by simp_all
      from Cons.IH [OF this(2)] e Cons assms(1) show ?thesis by (simp add: Let_def)
    qed
  qed
qed

lemma snapshots_first_query:
  assumes "lvl \<noteq> ReadCommitted"
    and "filter is_src evs = map (\<lambda>qp. SrcExecute (fst qp) (snd qp)) qps @ [fin]"
    and "fin = SrcCommit \<or> fin = SrcRollback"
  shows "\<exists>v. snapshots lvl committed i None evs = replicate (length qps) v"
  using assms(2)
proof (induction evs arbitrary: i)
  case Nil
  then show ?case by simp
next
  case (Cons e evs)
  show ?case
  proof (cases "is_src e")
    case False
    with Cons.prems have "filter is_src evs = map (\<lambda>qp. SrcExecute (fst qp) (snd qp)) qps @ [fin]"
      by simp
    from Cons.IH [OF this] False show ?thesis by (cases e) simp_all
  next
    case True
    show ?thesis
    proof (cases qps)
      case Nil
      with True Cons.prems have "e = fin" and "filter is_src evs = []" by simp_all
      with Nil assms(3) show ?thesis by (auto simp: snapshots_no_src)
    next
      case (Cons qp rest)
      with True Cons.prems have e: "e = SrcExecute (fst qp) (snd qp)"
        and rest: "filter is_src evs = map (\<lambda>qp. SrcExecute (fst qp) (snd qp)) rest @ [fin]"
        by simp_all
      from snapshots_in_transaction [OF assms(1) rest assms(3)] e Cons show ?thesis
        by (intro exI [of _ "committed i"]) (simp add: Let_def)
    qed
  qed
qed

text \<open>
  A run of calls whose source side is one transaction, begun once and ended once, with
  queries in between: above read committed all its queries read one snapshot.
\<close>

lemma snapshots_one_transaction:
  assumes "lvl \<noteq> ReadCommitted"
    and "filter is_src evs = SrcBegin # map (\<lambda>qp. SrcExecute (fst qp) (snd qp)) qps @ [fin]"
    and "fin = SrcCommit \<or> fin = SrcRollback"
  shows "\<exists>v. snapshots lvl committed i snap evs = replicate (length qps) v"
  using assms(2)
proof (induction evs arbitrary: i snap)
  case Nil
  then show ?case by simp
next
  case (Cons e evs)
  show ?case
  proof (cases "is_src e")
    case False
    with Cons.prems have
      "filter is_src evs = SrcBegin # map (\<lambda>qp. SrcExecute (fst qp) (snd qp)) qps @ [fin]"
      by simp
    from Cons.IH [OF this] False show ?thesis by (cases e) simp_all
  next
    case True
    with Cons.prems have "e = SrcBegin"
      and "filter is_src evs = map (\<lambda>qp. SrcExecute (fst qp) (snd qp)) qps @ [fin]"
      by simp_all
    with snapshots_first_query [OF assms(1) this(2) assms(3)] show ?thesis by simp
  qed
qed

section \<open>The example runs, evaluated\<close>

lemmas run_simps = main_def run_dumps_def dump_def write_to_s3_def copy_into_redshift_def
  abort_run_def Let_def new_events_def s3_uri_def initial_world_def

lemmas text_simps = row_line_def row_record_def minus_one_day_def days_in_month_def is_leap_def
  strftime_Ymd_def strftime_Y_def strftime_m_def strftime_d_def zfill_def show_nat.simps
  show_int_def digit_char_def json_dumps_def json_item_def json_str_def escape_char_def hex4_def
  dquote_def backslash_def newline_def date_params_def users_dump_to_def projects_dump_to_def
  activities_dump_to_def date_of_def noon_def

lemma quiet_run_succeeds: "fst (main quiet_env initial_world) = Inr ()"
  by (simp add: quiet_env_def run_simps text_simps)

lemma quiet_day:
  "minus_one_day (clock quiet_env (ticks initial_world)) = Inr d \<Longrightarrow> d = noon\<lparr>day := 5\<rparr>"
  using minus_noon by (simp add: quiet_env_def)

lemma load_fails_users:
  "fst (dump load_fails_env (users_dump_to (noon\<lparr>day := 5\<rparr>)) ''users'' users_query None
     (initial_world\<lparr>src_in_tx := False, wh_pending := [], ticks := Suc (ticks initial_world)\<rparr>))
   = Inr ()"
  by (simp add: load_fails_env_def quiet_env_def run_simps text_simps)

lemma load_fails_projects:
  "fst (dump load_fails_env (projects_dump_to (noon\<lparr>day := 5\<rparr>)) ''projects'' projects_query None w)
     = Inl (DatabaseError ''Load into table projects failed'')"
  by (simp add: load_fails_env_def quiet_env_def run_simps text_simps)

lemma quiet_dumps_succeed:
  "fst (dump quiet_env to_file copy_to query params w) = Inr ()"
  by (simp add: quiet_env_def dump_def write_to_s3_def copy_into_redshift_def Let_def text_simps)

lemma quiet_run_events:
  "new_events initial_world (snd (main quiet_env initial_world)) =
     [TempCreate 0, SrcBegin, SrcExecute users_query None,
      Upload (users_dump_to (noon\<lparr>day := 5\<rparr>)), TempRemove 0,
      WhCopy ''users'' (s3_uri quiet_env (users_dump_to (noon\<lparr>day := 5\<rparr>))) (redshift_role quiet_env),
      TempCreate 1, SrcExecute projects_query None,
      Upload (projects_dump_to (noon\<lparr>day := 5\<rparr>)), TempRemove 1,
      WhCopy ''projects'' (s3_uri quiet_env (projects_dump_to (noon\<lparr>day := 5\<rparr>)))
        (redshift_role quiet_env),
      TempCreate 2, SrcExecute activities_query (Some [(2023, 3, 5)]),
      Upload (activities_dump_to (noon\<lparr>day := 5\<rparr>)), TempRemove 2,
      WhCopy ''activities'' (s3_uri quiet_env (activities_dump_to (noon\<lparr>day := 5\<rparr>)))
        (redshift_role quiet_env),
      SrcCommit, WhCommit]"
  by (simp add: quiet_env_def run_simps text_simps)

section \<open>Claims about dump\<close>

text \<open>
  \<^bold>\<open>C1\<close>. Every record of a run is to carry the same \<^verbatim>\<open>snapshot_date\<close>, the date of the
  partition path. \<^verbatim>\<open>main\<close> computes \<^verbatim>\<open>day\<close> from one reading of the clock and uses it for
  all three paths and for the parameter of the activities query, but \<^verbatim>\<open>dump\<close> reads the
  clock again for every row. In the run started two seconds before midnight of 2023-03-06,
  the blob written under the path of 2023-03-05 holds one record dated 2023-03-05 and one
  dated 2023-03-06.
\<close>

theorem snapshot_date_differs_across_midnight:
  "fst (main midnight_env initial_world) = Inr ()
   \<and> s3 (snd (main midnight_env initial_world))
       ''users/snapshot_year=2023/snapshot_month=03/snapshot_day=05/data''
     = Some (''{'' @ [dquote] @ ''snapshot_date'' @ [dquote] @ '': '' @ [dquote] @ ''2023-03-05'' @ [dquote]
               @ '', '' @ [dquote] @ ''id'' @ [dquote] @ '': 1, ''
               @ [dquote] @ ''created_at'' @ [dquote] @ '': '' @ [dquote] @ ''2023-03-01'' @ [dquote]
               @ '', '' @ [dquote] @ ''name'' @ [dquote] @ '': '' @ [dquote] @ ''ann'' @ [dquote] @ ''}''
               @ [newline]
            @ ''{'' @ [dquote] @ ''snapshot_date'' @ [dquote] @ '': '' @ [dquote] @ ''2023-03-06'' @ [dquote]
               @ '', '' @ [dquote] @ ''id'' @ [dquote] @ '': 2, ''
               @ [dquote] @ ''created_at'' @ [dquote] @ '': null''
               @ '', '' @ [dquote] @ ''name'' @ [dquote] @ '': '' @ [dquote] @ ''bob'' @ [dquote] @ ''}''
               @ [newline])"
  by (simp add: midnight_env_def quiet_env_def run_simps text_simps)

text \<open>
  \<^bold>\<open>C2\<close>, as stated, fails: \<^verbatim>\<open>os.remove\<close> is reached only after the upload has returned.
  When the connection drops during extraction, and when the upload raises, the temporary
  file (number 0 here) is still there after \<^verbatim>\<open>dump\<close>.
\<close>

theorem temp_file_left_after_failure:
  "fst (dump dropped_env (users_dump_to (noon\<lparr>day := 5\<rparr>)) ''users'' users_query None initial_world)
      = Inl (DatabaseError ''server closed the connection unexpectedly'')
   \<and> tmpfs (snd (dump dropped_env (users_dump_to (noon\<lparr>day := 5\<rparr>)) ''users'' users_query None
        initial_world)) 0 \<noteq> None
   \<and> fst (dump (quiet_env\<lparr>upload_file := (\<lambda>k. Some (S3UploadFailedError ''Access Denied''))\<rparr>)
        (users_dump_to (noon\<lparr>day := 5\<rparr>)) ''users'' users_query None initial_world)
      = Inl (S3UploadFailedError ''Access Denied'')
   \<and> tmpfs (snd (dump (quiet_env\<lparr>upload_file := (\<lambda>k. Some (S3UploadFailedError ''Access Denied''))\<rparr>)
        (users_dump_to (noon\<lparr>day := 5\<rparr>)) ''users'' users_query None initial_world)) 0 \<noteq> None"
  by (simp add: dropped_env_def quiet_env_def run_simps text_simps)

text \<open>
  \<^bold>\<open>C2\<close>, amended. For every execution of \<^verbatim>\<open>dump\<close>, the temporary file it created is
  deleted exactly when the query was executed, every row was serialized, the cursor ended
  without an error and the upload returned; so it is deleted whenever \<^verbatim>\<open>dump\<close> returns, and
  also when only the bulk load that follows raises. When extraction or upload raises, the
  file is left behind.
\<close>

theorem temp_file_removed_iff_uploaded:
  "(tmpfs (snd (dump env to_file copy_to query params w)) (next_tmp w) = None
     \<longleftrightarrow> (\<exists>description rows.
            replica_execute env query params = Rows description rows None
            \<and> fst (write_rows env description rows (ticks w) []) = None)
          \<and> upload_file env to_file = None)
   \<and> (fst (dump env to_file copy_to query params w) = Inr ()
        \<longrightarrow> tmpfs (snd (dump env to_file copy_to query params w)) (next_tmp w) = None)"
  by (auto simp: dump_defs split: dump_splits)

theorem temp_file_removed_iff_uploaded_witness:
  "tmpfs (snd (dump quiet_env (users_dump_to (noon\<lparr>day := 5\<rparr>)) ''users'' users_query None
      initial_world)) (next_tmp initial_world) = None"
proof -
  have "fst (write_rows quiet_env [''id'', ''created_at'', ''name'']
          [[PInt 1, PObj (noon\<lparr>day := 1\<rparr>), PStr ''ann''], [PInt 2, PNone, PStr ''bob'']]
          (ticks initial_world) []) = None"
    by (simp add: quiet_env_def initial_world_def text_simps)
  moreover have "replica_execute quiet_env users_query None = Rows [''id'', ''created_at'', ''name'']
          [[PInt 1, PObj (noon\<lparr>day := 1\<rparr>), PStr ''ann''], [PInt 2, PNone, PStr ''bob'']] None"
    and "upload_file quiet_env (users_dump_to (noon\<lparr>day := 5\<rparr>)) = None"
    by (simp_all add: quiet_env_def)
  ultimately show ?thesis
    using temp_file_removed_iff_uploaded [of quiet_env "users_dump_to (noon\<lparr>day := 5\<rparr>)" "''users''"
        users_query None initial_world]
    by blast
qed

text \<open>
  \<^bold>\<open>C5\<close>. When the cursor raises after it has yielded any number of rows, \<^verbatim>\<open>dump\<close> raises:
  the objects of the bucket are what they were and no upload is called. If all the rows
  yielded were serialized, the error is the cursor's and the temporary file holds their
  lines.
\<close>

theorem no_upload_when_extraction_raises:
  assumes "replica_execute env query params = Rows description rows (Some e)"
  shows "(\<exists>e'. fst (dump env to_file copy_to query params w) = Inl e')
       \<and> s3 (snd (dump env to_file copy_to query params w)) = s3 w
       \<and> filter is_upload (new_events w (snd (dump env to_file copy_to query params w))) = []
       \<and> (fst (write_rows env description rows (ticks w) []) = None \<longrightarrow>
            fst (dump env to_file copy_to query params w) = Inl e
            \<and> tmpfs (snd (dump env to_file copy_to query params w)) (next_tmp w)
                 = Some (snd (snd (write_rows env description rows (ticks w) []))))"
  using assms
  by (auto simp: dump_defs new_events_def split: dump_splits)

theorem no_upload_when_extraction_raises_witness:
  "(\<exists>e'. fst (dump dropped_env (users_dump_to (noon\<lparr>day := 5\<rparr>)) ''users'' users_query None
                initial_world) = Inl e')
   \<and> s3 (snd (dump dropped_env (users_dump_to (noon\<lparr>day := 5\<rparr>)) ''users'' users_query None
                initial_world)) = Map.empty"
proof -
  have "replica_execute dropped_env users_query None = Rows [''id'', ''created_at'', ''name'']
         [[PInt 1, PObj (noon\<lparr>day := 1\<rparr>), PStr ''ann'']]
         (Some (DatabaseError ''server closed the connection unexpectedly''))"
    by (simp add: dropped_env_def)
  from no_upload_when_extraction_raises [OF this, of "users_dump_to (noon\<lparr>day := 5\<rparr>)" "''users''"
      initial_world]
  show ?thesis by (simp add: initial_world_def)
qed

section \<open>Claims about main\<close>

text \<open>
  \<^bold>\<open>C3\<close>. With both connections made and \<^verbatim>\<open>day\<close> computed, let the users dump end in
  \<open>(ru, w1)\<close>, the projects dump run from \<open>w1\<close> end in \<open>(rp, w2)\<close> and the activities dump
  run from \<open>w2\<close> end in \<open>(ra, w3)\<close>. If the first dump that raises does so with \<open>e\<close>,
  \<^verbatim>\<open>main\<close> raises \<open>e\<close> and leaves the world as that dump left it, but for the rollback of
  the source transaction: no later dump is attempted, the warehouse commit is not called,
  and the committed loads of the warehouse are what they were before the run.
\<close>

theorem dump_failure_aborts_run:
  assumes "replica_connect env = None" and "redshift_connect env = None"
    and d: "minus_one_day (clock env (ticks w)) = Inr d"
    and u: "dump env (users_dump_to d) ''users'' users_query None
              (w\<lparr>src_in_tx := False, wh_pending := [], ticks := Suc (ticks w)\<rparr>) = (ru, w1)"
    and p: "dump env (projects_dump_to d) ''projects'' projects_query None w1 = (rp, w2)"
    and a: "dump env (activities_dump_to d) ''activities'' activities_query (Some [date_of d]) w2
              = (ra, w3)"
  shows "(ru = Inl e \<longrightarrow> main env w = (Inl e, abort_run w1))
       \<and> (ru = Inr () \<and> rp = Inl e \<longrightarrow> main env w = (Inl e, abort_run w2))
       \<and> (ru = Inr () \<and> rp = Inr () \<and> ra = Inl e \<longrightarrow> main env w = (Inl e, abort_run w3))
       \<and> (ru = Inl e \<or> ru = Inr () \<and> rp = Inl e \<or> ru = Inr () \<and> rp = Inr () \<and> ra = Inl e \<longrightarrow>
            fst (main env w) = Inl e
            \<and> wh_visible (snd (main env w)) = wh_visible w
            \<and> WhCommit \<notin> set (new_events w (snd (main env w))))"
proof -
  let ?w = "w\<lparr>src_in_tx := False, wh_pending := []\<rparr>"
  have d': "minus_one_day (clock env (ticks ?w)) = Inr d" using d by simp
  have u': "dump env (users_dump_to d) ''users'' users_query None (?w\<lparr>ticks := Suc (ticks ?w)\<rparr>)
              = (ru, w1)"
    using u by simp
  note rd = run_dumps_cases [OF d' u' p a]
  have tx: "\<not> src_in_tx ?w" by simp
  from run_dumps_src_events [OF d' tx] obtain evs where
    evs: "trace (snd (run_dumps env ?w)) = trace w @ evs" "WhCommit \<notin> set evs"
    by auto
  have fail: "fst (main env w) = Inl e'
        \<and> wh_visible (snd (main env w)) = wh_visible w
        \<and> WhCommit \<notin> set (new_events w (snd (main env w)))"
    if "fst (run_dumps env ?w) = Inl e'" for e'
  proof -
    from that have "run_dumps env ?w = (Inl e', snd (run_dumps env ?w))"
      by (metis prod.collapse)
    from main_after_failed_dumps [OF assms(1,2) this]
    show ?thesis
      using evs run_dumps_wh_visible [of env ?w]
      by (simp add: abort_run_def new_events_def)
  qed
  have c1: "main env w = (Inl e, abort_run w1)" if "ru = Inl e"
    using that rd by (intro main_after_failed_dumps [OF assms(1,2)]) simp
  have c2: "main env w = (Inl e, abort_run w2)" if "ru = Inr ()" "rp = Inl e"
    using that rd by (intro main_after_failed_dumps [OF assms(1,2)]) simp
  have c3: "main env w = (Inl e, abort_run w3)" if "ru = Inr ()" "rp = Inr ()" "ra = Inl e"
    using that rd by (intro main_after_failed_dumps [OF assms(1,2)]) simp
  have c4: "fst (run_dumps env ?w) = Inl e"
    if "ru = Inl e \<or> ru = Inr () \<and> rp = Inl e \<or> ru = Inr () \<and> rp = Inr () \<and> ra = Inl e"
    using that rd by auto
  from c1 c2 c3 c4 fail show ?thesis by blast
qed

theorem dump_failure_aborts_run_witness:
  "fst (main load_fails_env initial_world) = Inl (DatabaseError ''Load into table projects failed'')
   \<and> wh_visible (snd (main load_fails_env initial_world)) = wh_visible initial_world
   \<and> WhCommit \<notin> set (new_events initial_world (snd (main load_fails_env initial_world)))"
proof -
  let ?w0 = "initial_world\<lparr>src_in_tx := False, wh_pending := [], ticks := Suc (ticks initial_world)\<rparr>"
  let ?u = "dump load_fails_env (users_dump_to (noon\<lparr>day := 5\<rparr>)) ''users'' users_query None ?w0"
  let ?p = "dump load_fails_env (projects_dump_to (noon\<lparr>day := 5\<rparr>)) ''projects'' projects_query
              None (snd ?u)"
  let ?a = "dump load_fails_env (activities_dump_to (noon\<lparr>day := 5\<rparr>)) ''activities''
              activities_query (Some [date_of (noon\<lparr>day := 5\<rparr>)]) (snd ?p)"
  have c: "replica_connect load_fails_env = None" "redshift_connect load_fails_env = None"
    by (simp_all add: load_fails_env_def quiet_env_def)
  have d: "minus_one_day (clock load_fails_env (ticks initial_world)) = Inr (noon\<lparr>day := 5\<rparr>)"
    by (simp add: load_fails_env_def quiet_env_def minus_noon)
  have u: "?u = (fst ?u, snd ?u)" and p: "?p = (fst ?p, snd ?p)" and a: "?a = (fst ?a, snd ?a)"
    by simp_all
  from dump_failure_aborts_run [OF c d u p a, of "DatabaseError ''Load into table projects failed''"]
    load_fails_users load_fails_projects [of "snd ?u"]
  show ?thesis by blast
qed

text \<open>
  \<^bold>\<open>C4\<close>, as stated, fails: between the last dump and \<^verbatim>\<open>redshift.commit()\<close> the block
  \<^verbatim>\<open>with read_replica:\<close> ends and commits the source transaction. In the run in which that
  commit raises, all three dumps succeed, the three \<^verbatim>\<open>COPY\<close> statements are the only calls
  on the warehouse connection, no warehouse commit is called and no load becomes visible.
\<close>

theorem no_commit_when_source_commit_fails:
  "fst (run_dumps source_commit_fails_env (initial_world\<lparr>src_in_tx := False, wh_pending := []\<rparr>))
     = Inr ()
   \<and> fst (main source_commit_fails_env initial_world)
     = Inl (DatabaseError ''server closed the connection unexpectedly'')
   \<and> length (filter is_wh (new_events initial_world (snd (main source_commit_fails_env initial_world))))
     = 3
   \<and> WhCommit \<notin> set (new_events initial_world (snd (main source_commit_fails_env initial_world)))
   \<and> wh_visible (snd (main source_commit_fails_env initial_world)) = []"
  by (simp add: source_commit_fails_env_def quiet_env_def run_simps text_simps)

text \<open>
  \<^bold>\<open>C4\<close>, amended. In a run where all three dumps succeed and the commit of the source
  transaction on leaving the block succeeds, the warehouse commit is called exactly once,
  after the \<^verbatim>\<open>COPY\<close> statement of the last dump: the calls on the warehouse connection are
  the three \<^verbatim>\<open>COPY\<close> statements, for users, projects and activities, and then the commit.
  No load is visible before it. When it returns, the three loads become visible together;
  when it raises, none does.
\<close>

theorem commit_once_after_all_loads:
  assumes "replica_connect env = None" and "redshift_connect env = None"
    and d: "minus_one_day (clock env (ticks w)) = Inr d"
    and u: "dump env (users_dump_to d) ''users'' users_query None
              (w\<lparr>src_in_tx := False, wh_pending := [], ticks := Suc (ticks w)\<rparr>) = (Inr (), w1)"
    and p: "dump env (projects_dump_to d) ''projects'' projects_query None w1 = (Inr (), w2)"
    and a: "dump env (activities_dump_to d) ''activities'' activities_query (Some [date_of d]) w2
              = (Inr (), w3)"
    and "replica_commit env = None"
  shows "filter is_wh (new_events w (snd (main env w))) =
        [WhCopy ''users'' (s3_uri env (users_dump_to d)) (redshift_role env),
         WhCopy ''projects'' (s3_uri env (projects_dump_to d)) (redshift_role env),
         WhCopy ''activities'' (s3_uri env (activities_dump_to d)) (redshift_role env),
         WhCommit]
    \<and> wh_visible w3 = wh_visible w
    \<and> (case redshift_commit env of
          None \<Rightarrow> fst (main env w) = Inr ()
            \<and> wh_visible (snd (main env w)) = wh_visible w @
                 [(''users'', s3_uri env (users_dump_to d)),
                  (''projects'', s3_uri env (projects_dump_to d)),
                  (''activities'', s3_uri env (activities_dump_to d))]
        | Some e \<Rightarrow> fst (main env w) = Inl e \<and> wh_visible (snd (main env w)) = wh_visible w)"
proof -
  let ?w = "w\<lparr>src_in_tx := False, wh_pending := []\<rparr>"
  have d': "minus_one_day (clock env (ticks ?w)) = Inr d" using d by simp
  have u': "dump env (users_dump_to d) ''users'' users_query None (?w\<lparr>ticks := Suc (ticks ?w)\<rparr>)
              = (Inr (), w1)"
    using u by simp
  have rd: "run_dumps env ?w = (Inr (), w3)"
    using run_dumps_cases [OF d' u' p a] by simp
  then have ok: "fst (run_dumps env ?w) = Inr ()" by simp
  from run_dumps_success [OF ok] d' rd have
    tr: "trace w3 = trace w
          @ dump_calls env (next_tmp w) False (users_dump_to d) ''users'' users_query None
          @ dump_calls env (Suc (next_tmp w)) True (projects_dump_to d) ''projects'' projects_query None
          @ dump_calls env (Suc (Suc (next_tmp w))) True (activities_dump_to d) ''activities''
              activities_query (Some [date_of d])"
    and pe: "wh_pending w3 =
          [(''users'', s3_uri env (users_dump_to d)), (''projects'', s3_uri env (projects_dump_to d)),
           (''activities'', s3_uri env (activities_dump_to d))]"
    by auto
  have vis: "wh_visible w3 = wh_visible w"
    using run_dumps_wh_visible [of env ?w] rd by simp
  have wh: "filter is_wh (new_events w (snd (main env w))) =
        [WhCopy ''users'' (s3_uri env (users_dump_to d)) (redshift_role env),
         WhCopy ''projects'' (s3_uri env (projects_dump_to d)) (redshift_role env),
         WhCopy ''activities'' (s3_uri env (activities_dump_to d)) (redshift_role env),
         WhCommit]"
    using assms(1,2,7) rd tr
    by (simp add: main_def Let_def new_events_def dump_calls_def split: option.splits)
  have res: "case redshift_commit env of
          None \<Rightarrow> fst (main env w) = Inr ()
            \<and> wh_visible (snd (main env w)) = wh_visible w @
                 [(''users'', s3_uri env (users_dump_to d)),
                  (''projects'', s3_uri env (projects_dump_to d)),
                  (''activities'', s3_uri env (activities_dump_to d))]
        | Some e \<Rightarrow> fst (main env w) = Inl e \<and> wh_visible (snd (main env w)) = wh_visible w"
    using assms(1,2,7) rd pe vis
    by (simp add: main_def Let_def split: option.splits)
  from wh vis res show ?thesis by blast
qed

theorem commit_once_after_all_loads_witness:
  "filter is_wh (new_events initial_world (snd (main quiet_env initial_world))) =
     [WhCopy ''users'' (s3_uri quiet_env (users_dump_to (noon\<lparr>day := 5\<rparr>))) (redshift_role quiet_env),
      WhCopy ''projects'' (s3_uri quiet_env (projects_dump_to (noon\<lparr>day := 5\<rparr>)))
        (redshift_role quiet_env),
      WhCopy ''activities'' (s3_uri quiet_env (activities_dump_to (noon\<lparr>day := 5\<rparr>)))
        (redshift_role quiet_env),
      WhCommit]
   \<and> fst (main quiet_env initial_world) = Inr ()
   \<and> wh_visible (snd (main quiet_env initial_world)) =
     [(''users'', s3_uri quiet_env (users_dump_to (noon\<lparr>day := 5\<rparr>))),
      (''projects'', s3_uri quiet_env (projects_dump_to (noon\<lparr>day := 5\<rparr>))),
      (''activities'', s3_uri quiet_env (activities_dump_to (noon\<lparr>day := 5\<rparr>)))]"
proof -
  let ?w0 = "initial_world\<lparr>src_in_tx := False, wh_pending := [], ticks := Suc (ticks initial_world)\<rparr>"
  let ?u = "dump quiet_env (users_dump_to (noon\<lparr>day := 5\<rparr>)) ''users'' users_query None ?w0"
  let ?p = "dump quiet_env (projects_dump_to (noon\<lparr>day := 5\<rparr>)) ''projects'' projects_query
              None (snd ?u)"
  let ?a = "dump quiet_env (activities_dump_to (noon\<lparr>day := 5\<rparr>)) ''activities''
              activities_query (Some [date_of (noon\<lparr>day := 5\<rparr>)]) (snd ?p)"
  have c: "replica_connect quiet_env = None" "redshift_connect quiet_env = None"
    and rc: "replica_commit quiet_env = None" and wc: "redshift_commit quiet_env = None"
    by (simp_all add: quiet_env_def)
  have d: "minus_one_day (clock quiet_env (ticks initial_world)) = Inr (noon\<lparr>day := 5\<rparr>)"
    by (simp add: quiet_env_def minus_noon)
  have u: "?u = (Inr (), snd ?u)" and p: "?p = (Inr (), snd ?p)" and a: "?a = (Inr (), snd ?a)"
    using quiet_dumps_succeed by (simp_all add: prod_eq_iff)
  from commit_once_after_all_loads [OF c d u p a rc] wc
  show ?thesis by (simp add: initial_world_def)
qed

text \<open>
  \<^bold>\<open>C8\<close>, as stated, fails: the three extractions of a run do lie in one source
  transaction, but the program opens the source connection without choosing an isolation
  level, and at read committed every query reads the data committed when it starts. In the
  run where another session commits once while the users blob is handled, the users query
  reads version 0 of the source and the projects and activities queries read version 1.
\<close>

theorem read_committed_snapshots_differ:
  "filter is_src (new_events initial_world (snd (main quiet_env initial_world))) =
     [SrcBegin, SrcExecute users_query None, SrcExecute projects_query None,
      SrcExecute activities_query (Some [(2023, 3, 5)]), SrcCommit]
   \<and> snapshots ReadCommitted busy_source 0 None
        (new_events initial_world (snd (main quiet_env initial_world))) = [0, 1, 1]"
  by (simp add: quiet_run_events busy_source_def Let_def)

text \<open>
  \<^bold>\<open>C8\<close>, amended. In every run that gets as far as the first dump, all table
  extractions execute inside a single source-side transaction: the calls on the source
  connection are the begin of one transaction, made with the first query, the queries of
  the dumps that were started (the first \<open>k\<close> of users, projects, activities), and last the
  commit or the rollback that ends the block; a run that returns has executed all three
  queries and committed. When the isolation level of that transaction is repeatable read
  or serializable, every dump reads the source data as of one snapshot; at read committed
  each query reads its own.
\<close>

theorem extractions_in_one_source_transaction:
  assumes "replica_connect env = None" and "redshift_connect env = None"
    and d: "minus_one_day (clock env (ticks w)) = Inr d"
    and lvl: "lvl \<noteq> ReadCommitted"
  shows "\<exists>k fin v. 1 \<le> k \<and> k \<le> 3 \<and> (fin = SrcCommit \<or> fin = SrcRollback)
     \<and> filter is_src (new_events w (snd (main env w))) =
         SrcBegin # take k [SrcExecute users_query None, SrcExecute projects_query None,
                            SrcExecute activities_query (Some [date_of d])] @ [fin]
     \<and> (fst (main env w) = Inr () \<longrightarrow> k = 3 \<and> fin = SrcCommit)
     \<and> (k < 3 \<longrightarrow> fin = SrcRollback)
     \<and> snapshots lvl committed 0 None (new_events w (snd (main env w))) = replicate k v"
proof -
  from main_src_events [OF assms(1,2) d] obtain k fin where
    k: "1 \<le> k" "k \<le> 3" and fin: "fin = SrcCommit \<or> fin = SrcRollback"
    and src: "filter is_src (new_events w (snd (main env w))) =
         SrcBegin # take k [SrcExecute users_query None, SrcExecute projects_query None,
                            SrcExecute activities_query (Some [date_of d])] @ [fin]"
    and ok: "fst (main env w) = Inr () \<longrightarrow> k = 3 \<and> fin = SrcCommit"
    and ko: "k < 3 \<longrightarrow> fin = SrcRollback"
    by blast
  let ?qps = "take k [(users_query, None), (projects_query, None),
                      (activities_query, Some [date_of d])]"
  have "take k [SrcExecute users_query None, SrcExecute projects_query None,
                SrcExecute activities_query (Some [date_of d])]
          = map (\<lambda>qp. SrcExecute (fst qp) (snd qp)) ?qps"
    by (simp add: take_map [symmetric])
  with src have "filter is_src (new_events w (snd (main env w))) =
         SrcBegin # map (\<lambda>qp. SrcExecute (fst qp) (snd qp)) ?qps @ [fin]"
    by simp
  from snapshots_one_transaction [OF lvl this fin, of committed 0 None]
  obtain v where
    v: "snapshots lvl committed 0 None (new_events w (snd (main env w))) = replicate (length ?qps) v"
    by blast
  have "length ?qps = k" using k(2) by simp
  with v have "snapshots lvl committed 0 None (new_events w (snd (main env w))) = replicate k v"
    by simp
  with k fin src ok ko show ?thesis by blast
qed

theorem extractions_in_one_source_transaction_witness:
  "\<exists>v. snapshots RepeatableRead busy_source 0 None
          (new_events initial_world (snd (main quiet_env initial_world))) = [v, v, v]"
proof -
  have c: "replica_connect quiet_env = None" "redshift_connect quiet_env = None"
    by (simp_all add: quiet_env_def)
  have d: "minus_one_day (clock quiet_env (ticks initial_world)) = Inr (noon\<lparr>day := 5\<rparr>)"
    by (simp add: quiet_env_def minus_noon)
  have lvl: "RepeatableRead \<noteq> ReadCommitted" by simp
  from extractions_in_one_source_transaction [OF c d lvl, of busy_source]
  obtain k v where "fst (main quiet_env initial_world) = Inr () \<longrightarrow> k = 3"
    and "snapshots RepeatableRead busy_source 0 None
      (new_events initial_world (snd (main quiet_env initial_world))) = replicate k v"
    by blast
  with quiet_run_succeeds have "snapshots RepeatableRead busy_source 0 None
      (new_events initial_world (snd (main quiet_env initial_world))) = replicate 3 v"
    by simp
  then have "snapshots RepeatableRead busy_source 0 None
      (new_events initial_world (snd (main quiet_env initial_world))) = [v, v, v]"
    by (simp add: numeral_3_eq_3)
  then show ?thesis by blast
qed

text \<open>
  \<^bold>\<open>C10\<close>. The calls of a run that returns are those of three dumps, in the order users,
  projects, activities, and the two commits. The users and projects blobs go to paths with
  leaf \<^verbatim>\<open>data\<close>, their queries have no parameters and no \<^verbatim>\<open>WHERE\<close> clause; the
  activities blob goes to a path with leaf \<^verbatim>\<open>incremental\<close>, and its query ends with
  \<^verbatim>\<open>WHERE DATE(created_at) = %s\<close>, bound to the date of \<^verbatim>\<open>day\<close>.
\<close>

theorem three_dumps_in_fixed_order:
  assumes "fst (main env w) = Inr ()"
  shows "\<exists>d. minus_one_day (clock env (ticks w)) = Inr d
    \<and> new_events w (snd (main env w)) =
        dump_calls env (next_tmp w) False (users_dump_to d) ''users'' users_query None
        @ dump_calls env (Suc (next_tmp w)) True (projects_dump_to d) ''projects'' projects_query None
        @ dump_calls env (Suc (Suc (next_tmp w))) True (activities_dump_to d) ''activities''
            activities_query (Some [date_of d])
        @ [SrcCommit, WhCommit]
    \<and> users_dump_to d = ''users/'' @ date_params d @ ''/data''
    \<and> projects_dump_to d = ''projects/'' @ date_params d @ ''/data''
    \<and> activities_dump_to d = ''activities/'' @ date_params d @ ''/incremental''
    \<and> \<not> occurs_in ''WHERE'' users_query \<and> \<not> occurs_in ''WHERE'' projects_query
    \<and> occurs_in ''FROM activities'' activities_query
    \<and> (\<exists>q. activities_query = q @ ''WHERE DATE(created_at) = %s'')"
proof -
  let ?w = "w\<lparr>src_in_tx := False, wh_pending := []\<rparr>"
  note ms = main_success [OF assms]
  from run_dumps_success [OF ms(1)] obtain d where
    d: "minus_one_day (clock env (ticks w)) = Inr d"
    and tr: "trace (snd (run_dumps env ?w)) = trace w
          @ dump_calls env (next_tmp w) False (users_dump_to d) ''users'' users_query None
          @ dump_calls env (Suc (next_tmp w)) True (projects_dump_to d) ''projects'' projects_query None
          @ dump_calls env (Suc (Suc (next_tmp w))) True (activities_dump_to d) ''activities''
              activities_query (Some [date_of d])"
    by auto
  have full: "\<not> occurs_in ''WHERE'' users_query" "\<not> occurs_in ''WHERE'' projects_query"
    by (simp_all add: users_query_def projects_query_def)
  have incr: "occurs_in ''FROM activities'' activities_query"
    by (simp add: activities_query_def)
  have "activities_query = join [newline]
     ['''', ''            SELECT'', ''                id,'', ''                event,'',
      ''                created_at,'', ''                updated_at,'',
      ''                project_id,'', ''                user_id'',
      ''            FROM activities'', ''            ''] @ ''WHERE DATE(created_at) = %s''"
    by (simp add: activities_query_def)
  then have wh: "\<exists>q. activities_query = q @ ''WHERE DATE(created_at) = %s''" by blast
  from d tr ms(2) full incr wh show ?thesis
    by (simp add: new_events_def users_dump_to_def projects_dump_to_def activities_dump_to_def)
qed

theorem three_dumps_in_fixed_order_witness:
  "new_events initial_world (snd (main quiet_env initial_world)) =
     dump_calls quiet_env 0 False (users_dump_to (noon\<lparr>day := 5\<rparr>)) ''users'' users_query None
     @ dump_calls quiet_env 1 True (projects_dump_to (noon\<lparr>day := 5\<rparr>)) ''projects'' projects_query
         None
     @ dump_calls quiet_env 2 True (activities_dump_to (noon\<lparr>day := 5\<rparr>)) ''activities''
         activities_query (Some [(2023, 3, 5)])
     @ [SrcCommit, WhCommit]"
proof -
  from three_dumps_in_fixed_order [OF quiet_run_succeeds] obtain d where
    d: "minus_one_day (clock quiet_env (ticks initial_world)) = Inr d"
    and ev: "new_events initial_world (snd (main quiet_env initial_world)) =
        dump_calls quiet_env (next_tmp initial_world) False (users_dump_to d) ''users'' users_query None
        @ dump_calls quiet_env (Suc (next_tmp initial_world)) True (projects_dump_to d) ''projects''
            projects_query None
        @ dump_calls quiet_env (Suc (Suc (next_tmp initial_world))) True (activities_dump_to d)
            ''activities'' activities_query (Some [date_of d])
        @ [SrcCommit, WhCommit]"
    by blast
  have "date_of (noon\<lparr>day := 5\<rparr>) = (2023, 3, 5)" by (simp add: date_of_def noon_def)
  with ev show ?thesis
    unfolding quiet_day [OF d] by (simp add: initial_world_def numeral_2_eq_2)
qed

end
